theory Spec2Isabelle
  imports Complex_Main
begin

section \<open>Numbers, vectors and matrices\<close>

text \<open>
  The solvers of \<^verbatim>\<open>amfe/solver.py\<close> compute with Python floats and numpy arrays.
  A float is modelled as a \<^typ>\<open>real\<close> (rounding is not modelled), a one-dimensional
  array as a list of reals and a matrix as the list of its rows. The array operations the
  solvers use are written out on lists; numpy raises on operands whose shapes do not fit,
  and the operations below are meant for operands of fitting shapes only.
\<close>

type_synonym vec = "real list"
type_synonym mat = "real list list"

text \<open>The exceptions a solver can raise.\<close>

datatype py_error = TypeError | KeyError | ValueError | ZeroDivisionError | AttributeError

definition vadd :: "vec \<Rightarrow> vec \<Rightarrow> vec" where
  "vadd x y = map2 (+) x y"

definition vsub :: "vec \<Rightarrow> vec \<Rightarrow> vec" where
  "vsub x y = map2 (-) x y"

definition vscale :: "real \<Rightarrow> vec \<Rightarrow> vec" where
  "vscale a x = map ((*) a) x"

definition vneg :: "vec \<Rightarrow> vec" where
  "vneg x = map uminus x"

definition zeros :: "nat \<Rightarrow> vec" where
  "zeros n = replicate n 0"

definition dot :: "vec \<Rightarrow> vec \<Rightarrow> real" where
  "dot x y = sum_list (map2 (*) x y)"

definition matvec :: "mat \<Rightarrow> vec \<Rightarrow> vec" where
  "matvec A x = map (\<lambda>row. dot row x) A"

definition mscale :: "real \<Rightarrow> mat \<Rightarrow> mat" where
  "mscale a A = map (vscale a) A"

definition msub :: "mat \<Rightarrow> mat \<Rightarrow> mat" where
  "msub A B = map2 vsub A B"

text \<open>\<^verbatim>\<open>norm_of_vector(array)\<close>: \<^verbatim>\<open>np.sqrt(array.T.dot(array))\<close>.\<close>

definition norm_of_vector :: "vec \<Rightarrow> real" where
  "norm_of_vector array = sqrt (dot array array)"

text \<open>
  \<^verbatim>\<open>np.arange(start, stop, step)\<close> for a step other than zero: the
  \<open>\<lceil>(stop - start) / step\<rceil>\<close> values \<open>start + k * step\<close>.
\<close>

definition arange :: "real \<Rightarrow> real \<Rightarrow> real \<Rightarrow> real list" where
  "arange start stop step =
     map (\<lambda>k. start + real k * step) [0 ..< nat \<lceil>(stop - start) / step\<rceil>]"

section \<open>Scheme parameters\<close>

text \<open>
  \<^verbatim>\<open>GeneralizedAlphaNonlinearDynamicsSolver.set_parameters\<close> sets the attributes
  \<^verbatim>\<open>alpha_m\<close>, \<^verbatim>\<open>alpha_f\<close>, \<^verbatim>\<open>beta\<close> and \<^verbatim>\<open>gamma\<close> from \<^verbatim>\<open>rho_inf\<close>;
  \<^verbatim>\<open>JWHAlphaNonlinearDynamicsSolver.set_parameters\<close> sets \<^verbatim>\<open>alpha_m\<close>, \<^verbatim>\<open>alpha_f\<close>
  and \<^verbatim>\<open>gamma\<close> only. A division by zero raises \<^verbatim>\<open>ZeroDivisionError\<close>.
\<close>

record ga_params =
  alpha_m :: real
  alpha_f :: real
  beta :: real
  gamma :: real

record jwh_params =
  jwh_alpha_m :: real
  jwh_alpha_f :: real
  jwh_gamma :: real

definition ga_set_parameters :: "real \<Rightarrow> py_error + ga_params" where
  "ga_set_parameters rho_inf =
     (if rho_inf + 1 = 0 then Inl ZeroDivisionError
      else
        let am = (2 * rho_inf - 1) / (rho_inf + 1);
            af = rho_inf / (rho_inf + 1);
            b = 0.25 * (1 - am + af)\<^sup>2;
            g = 0.5 - am + af
        in Inr \<lparr>alpha_m = am, alpha_f = af, beta = b, gamma = g\<rparr>)"

definition jwh_set_parameters :: "real \<Rightarrow> py_error + jwh_params" where
  "jwh_set_parameters rho_inf =
     (if 2 * (1 + rho_inf) = 0 then Inl ZeroDivisionError
      else
        let am = (3 - rho_inf) / (2 * (1 + rho_inf));
            af = 1 / (1 + rho_inf);
            g = 0.5 + am - af
        in Inr \<lparr>jwh_alpha_m = am, jwh_alpha_f = af, jwh_gamma = g\<rparr>)"

section \<open>Python values, dictionaries and calls\<close>

text \<open>
  The constructors read a dictionary of options whose values are of any Python type, and
  store them as attributes. A value is a \<open>pyval\<close>; a dictionary is an association
  list (the first binding of a key is its value); an object is its class name and its
  attribute dictionary.
\<close>

datatype pyval =
    PNone
  | PBool bool
  | PInt int
  | PFloat real
  | PStr string
  | PArray "real list"
  | PClass string
  | PDict "(string \<times> pyval) list"
  | PObject string "(string \<times> pyval) list"

type_synonym dict = "(string \<times> pyval) list"

definition keys :: "dict \<Rightarrow> string list" where
  "keys d = map fst d"

text \<open>\<^verbatim>\<open>k in d\<close>\<close>

definition has_key :: "string \<Rightarrow> dict \<Rightarrow> bool" where
  "has_key k d = (k \<in> set (keys d))"

text \<open>\<^verbatim>\<open>d[k] if k in d else default\<close>\<close>

definition opt_or :: "dict \<Rightarrow> string \<Rightarrow> pyval \<Rightarrow> pyval" where
  "opt_or d k dflt = (case map_of d k of Some x \<Rightarrow> x | None \<Rightarrow> dflt)"

text \<open>\<^verbatim>\<open>self.k = x\<close>\<close>

definition setattr :: "string \<Rightarrow> pyval \<Rightarrow> dict \<Rightarrow> dict" where
  "setattr k x d = (k, x) # filter (\<lambda>kv. fst kv \<noteq> k) d"

text \<open>
  A method's parameters after \<^verbatim>\<open>self\<close> (none of the methods below gives a
  default value or takes \<^verbatim>\<open>*args\<close>), and whether it ends with a \<^verbatim>\<open>**options\<close>
  parameter.
\<close>

record signature =
  params :: "string list"
  var_kw :: bool

text \<open>
  Python's binding of the positional arguments \<open>args\<close> and the keyword arguments
  \<open>kwargs\<close> of a call to the parameters of the method called. The call raises
  \<^verbatim>\<open>TypeError\<close> when there are more positional arguments than parameters, when a keyword
  names a parameter that a positional argument has filled, when a keyword names no
  parameter and the method has no \<^verbatim>\<open>**options\<close>, and when a parameter is left without
  a value. Otherwise the result is the values of the parameters, in order, and the
  dictionary that \<^verbatim>\<open>**options\<close> receives.
\<close>

definition bind_call :: "signature \<Rightarrow> pyval list \<Rightarrow> dict \<Rightarrow> py_error + (pyval list \<times> dict)" where
  "bind_call sg args kwargs =
     (let ps = params sg; n = length args in
      if length ps < n then Inl TypeError
      else if list_ex (\<lambda>k. k \<in> set (take n ps)) (keys kwargs) then Inl TypeError
      else if \<not> var_kw sg \<and> list_ex (\<lambda>k. k \<notin> set ps) (keys kwargs) then Inl TypeError
      else if list_ex (\<lambda>p. \<not> has_key p kwargs) (drop n ps) then Inl TypeError
      else Inr (args @ List.map_filter (map_of kwargs) (drop n ps),
                filter (\<lambda>kv. fst kv \<notin> set ps) kwargs))"

text \<open>\<^verbatim>\<open>len(x)\<close>\<close>

definition py_len :: "pyval \<Rightarrow> py_error + int" where
  "py_len x =
     (case x of
        PArray xs \<Rightarrow> Inr (int (length xs))
      | PStr s \<Rightarrow> Inr (int (length s))
      | PDict d \<Rightarrow> Inr (int (length d))
      | _ \<Rightarrow> Inl TypeError)"

text \<open>\<^verbatim>\<open>n != x\<close> for an integer \<open>n\<close>\<close>

definition int_ne :: "int \<Rightarrow> pyval \<Rightarrow> bool" where
  "int_ne n x =
     (case x of
        PInt m \<Rightarrow> n \<noteq> m
      | PFloat r \<Rightarrow> real_of_int n \<noteq> r
      | PBool b \<Rightarrow> n \<noteq> (if b then 1 else 0)
      | _ \<Rightarrow> True)"

text \<open>\<^verbatim>\<open>np.zeros(n)\<close>\<close>

definition np_zeros :: "pyval \<Rightarrow> py_error + pyval" where
  "np_zeros n =
     (case n of
        PInt m \<Rightarrow> if m < 0 then Inl ValueError else Inr (PArray (zeros (nat m)))
      | PBool b \<Rightarrow> Inr (PArray (zeros (if b then 1 else 0)))
      | _ \<Rightarrow> Inl TypeError)"


section \<open>The constructors\<close>

text \<open>
  Every \<^verbatim>\<open>__init__(self, mechanical_system, **options)\<close> below takes the attribute
  dictionary of the object under construction and the positional and keyword arguments
  of the call, and returns the attribute dictionary or the exception raised. Messages
  printed are not modelled.
\<close>

definition init_sig :: signature where
  "init_sig = \<lparr>params = [''mechanical_system''], var_kw = True\<rparr>"

text \<open>\<^verbatim>\<open>Solver.__init__\<close>\<close>

definition Solver_init :: "dict \<Rightarrow> pyval list \<Rightarrow> dict \<Rightarrow> py_error + dict" where
  "Solver_init self args kwargs =
     (case bind_call init_sig args kwargs of
        Inl e \<Rightarrow> Inl e
      | Inr (vals, options) \<Rightarrow>
          (case vals of
             [mechanical_system] \<Rightarrow>
               let self = setattr ''mechanical_system'' mechanical_system self;
                   self = setattr ''linsolver''
                            (opt_or options ''linsolver'' (PClass ''PardisoSolver'')) self;
                   self = (case map_of options ''linsolveroptions'' of
                             Some x \<Rightarrow> setattr ''linsolveroptions'' x self
                           | None \<Rightarrow> self)
               in Inr self
           | _ \<Rightarrow> Inl TypeError))"

text \<open>\<^verbatim>\<open>LinearStaticsSolver.__init__\<close>: the options dictionary goes to
  \<^verbatim>\<open>Solver.__init__\<close> as a second positional argument.\<close>

definition LinearStaticsSolver_init :: "dict \<Rightarrow> pyval list \<Rightarrow> dict \<Rightarrow> py_error + dict" where
  "LinearStaticsSolver_init self args kwargs =
     (case bind_call init_sig args kwargs of
        Inl e \<Rightarrow> Inl e
      | Inr (vals, options) \<Rightarrow>
          (case vals of
             [mechanical_system] \<Rightarrow>
               (case Solver_init self [mechanical_system, PDict options] [] of
                  Inl e \<Rightarrow> Inl e
                | Inr self \<Rightarrow> Inr (setattr ''t'' (opt_or options ''t'' (PFloat 1.0)) self))
           | _ \<Rightarrow> Inl TypeError))"

text \<open>\<^verbatim>\<open>self.mechanical_system.no_of_dofs\<close>\<close>

definition no_of_dofs :: "dict \<Rightarrow> py_error + pyval" where
  "no_of_dofs self =
     (case map_of self ''mechanical_system'' of
        Some (PObject c attrs) \<Rightarrow>
          (case map_of attrs ''no_of_dofs'' of Some n \<Rightarrow> Inr n | None \<Rightarrow> Inl AttributeError)
      | _ \<Rightarrow> Inl AttributeError)"

text \<open>
  One of the two initial conditions of \<^verbatim>\<open>set_initial_conditions\<close>: the entry
  \<open>name\<close> of \<^verbatim>\<open>options['initial_conditions']\<close> when both are present, of the length
  \<^verbatim>\<open>no_of_dofs\<close>, and zeros otherwise. The value of \<^verbatim>\<open>initial_conditions\<close> is a
  dictionary (the documented type); the \<^verbatim>\<open>in\<close> test on another value is modelled as
  raising.
\<close>

definition initial_condition :: "dict \<Rightarrow> dict \<Rightarrow> string \<Rightarrow> py_error + pyval" where
  "initial_condition self options name =
     (case map_of options ''initial_conditions'' of
        None \<Rightarrow> (case no_of_dofs self of Inl e \<Rightarrow> Inl e | Inr n \<Rightarrow> np_zeros n)
      | Some (PDict ic) \<Rightarrow>
          (case map_of ic name of
             None \<Rightarrow> (case no_of_dofs self of Inl e \<Rightarrow> Inl e | Inr n \<Rightarrow> np_zeros n)
           | Some x \<Rightarrow>
               (case py_len x of
                  Inl e \<Rightarrow> Inl e
                | Inr l \<Rightarrow>
                    (case no_of_dofs self of
                       Inl e \<Rightarrow> Inl e
                     | Inr n \<Rightarrow> if int_ne l n then Inl ValueError else Inr x)))
      | Some _ \<Rightarrow> Inl TypeError)"

text \<open>\<^verbatim>\<open>set_initial_conditions(self, **options)\<close>, of \<^verbatim>\<open>NonlinearDynamicsSolver\<close> and
  of \<^verbatim>\<open>LinearDynamicsSolver\<close> (the two bodies are the same).\<close>

definition set_initial_conditions :: "dict \<Rightarrow> pyval list \<Rightarrow> dict \<Rightarrow> py_error + pyval" where
  "set_initial_conditions self args kwargs =
     (case bind_call \<lparr>params = [], var_kw = True\<rparr> args kwargs of
        Inl e \<Rightarrow> Inl e
      | Inr (vals, options) \<Rightarrow>
          (case initial_condition self options ''q0'' of
             Inl e \<Rightarrow> Inl e
           | Inr q0 \<Rightarrow>
               (case initial_condition self options ''dq0'' of
                  Inl e \<Rightarrow> Inl e
                | Inr dq0 \<Rightarrow> Inr (PDict [(''q0'', q0), (''dq0'', dq0)]))))"


text \<open>\<^verbatim>\<open>LinearDynamicsSolver.__init__\<close>: \<^verbatim>\<open>options['initial_conditions']\<close> is looked
  up and passed to \<^verbatim>\<open>set_initial_conditions\<close> as a positional argument.\<close>

definition LinearDynamicsSolver_init :: "dict \<Rightarrow> pyval list \<Rightarrow> dict \<Rightarrow> py_error + dict" where
  "LinearDynamicsSolver_init self args kwargs =
     (case bind_call init_sig args kwargs of
        Inl e \<Rightarrow> Inl e
      | Inr (vals, options) \<Rightarrow>
          (case vals of
             [mechanical_system] \<Rightarrow>
               (case Solver_init self [mechanical_system] options of
                  Inl e \<Rightarrow> Inl e
                | Inr self \<Rightarrow>
                    let self = setattr ''options'' (PDict options) self in
                    (case map_of options ''initial_conditions'' of
                       None \<Rightarrow> Inl KeyError
                     | Some given \<Rightarrow>
                         (case set_initial_conditions self [given] [] of
                            Inl e \<Rightarrow> Inl e
                          | Inr ic \<Rightarrow>
                              let self = setattr ''initial_conditions'' ic self;
                                  self = setattr ''t0'' (opt_or options ''t0'' (PFloat 0.0)) self;
                                  self = setattr ''t_end'' (opt_or options ''t_end'' (PFloat 1.0)) self
                              in (case map_of options ''dt'' of
                                    None \<Rightarrow> Inl ValueError
                                  | Some dt \<Rightarrow>
                                      let self = setattr ''dt'' dt self;
                                          self = setattr ''dt_output'' (opt_or options ''dt_output'' dt) self;
                                          self = setattr ''verbose'' (opt_or options ''verbose'' (PBool False)) self;
                                          self = setattr ''use_v'' (opt_or options ''use_v'' (PBool False)) self
                                      in Inr self))))
           | _ \<Rightarrow> Inl TypeError))"

text \<open>
  The four scheme classes have one constructor body: the constructor of the class they
  derive from, then \<^verbatim>\<open>use_v\<close> (false for generalized-alpha, true for JWH-alpha) and
  \<^verbatim>\<open>rho_inf\<close>.
\<close>

definition scheme_init ::
  "(dict \<Rightarrow> pyval list \<Rightarrow> dict \<Rightarrow> py_error + dict) \<Rightarrow> bool \<Rightarrow>
   dict \<Rightarrow> pyval list \<Rightarrow> dict \<Rightarrow> py_error + dict" where
  "scheme_init super_init uses_v self args kwargs =
     (case bind_call init_sig args kwargs of
        Inl e \<Rightarrow> Inl e
      | Inr (vals, options) \<Rightarrow>
          (case vals of
             [mechanical_system] \<Rightarrow>
               (case super_init self [mechanical_system] options of
                  Inl e \<Rightarrow> Inl e
                | Inr self \<Rightarrow>
                    let self = setattr ''use_v'' (PBool uses_v) self;
                        self = setattr ''rho_inf'' (opt_or options ''rho_inf'' (PFloat 0.9)) self
                    in Inr self)
           | _ \<Rightarrow> Inl TypeError))"



definition GeneralizedAlphaLinearDynamicsSolver_init ::
  "dict \<Rightarrow> pyval list \<Rightarrow> dict \<Rightarrow> py_error + dict" where
  "GeneralizedAlphaLinearDynamicsSolver_init =
     scheme_init LinearDynamicsSolver_init False"

definition JWHAlphaLinearDynamicsSolver_init ::
  "dict \<Rightarrow> pyval list \<Rightarrow> dict \<Rightarrow> py_error + dict" where
  "JWHAlphaLinearDynamicsSolver_init =
     scheme_init LinearDynamicsSolver_init True"

section \<open>The call of \<^verbatim>\<open>set_parameters\<close> in \<^verbatim>\<open>NonlinearDynamicsSolver.solve\<close>\<close>

text \<open>\<^verbatim>\<open>NonlinearDynamicsSolver.set_parameters(self, **options)\<close>: \<^verbatim>\<open>pass\<close>.\<close>

definition NonlinearDynamicsSolver_set_parameters ::
  "dict \<Rightarrow> pyval list \<Rightarrow> dict \<Rightarrow> py_error + dict" where
  "NonlinearDynamicsSolver_set_parameters self args kwargs =
     (case bind_call \<lparr>params = [], var_kw = True\<rparr> args kwargs of
        Inl e \<Rightarrow> Inl e
      | Inr b \<Rightarrow> Inr self)"



text \<open>
  \<^verbatim>\<open>NonlinearDynamicsSolver.solve\<close> up to its time step loop. The statements before the
  call \<^verbatim>\<open>self.set_parameters(**self.options)\<close> clear the recorded history and set local
  variables; they are taken to complete. \<open>set_parameters\<close> is the method of the
  object's class, and \<open>time_loop\<close> is the rest of \<^verbatim>\<open>solve\<close>, from the time step loop
  on.
\<close>

definition NonlinearDynamicsSolver_solve ::
  "(dict \<Rightarrow> pyval list \<Rightarrow> dict \<Rightarrow> py_error + dict) \<Rightarrow> dict \<Rightarrow> (dict \<Rightarrow> py_error + 'r) \<Rightarrow>
   py_error + 'r" where
  "NonlinearDynamicsSolver_solve set_parameters self time_loop =
     (case map_of self ''options'' of
        None \<Rightarrow> Inl AttributeError
      | Some (PDict options) \<Rightarrow>
          (case set_parameters self [] options of
             Inl e \<Rightarrow> Inl e
           | Inr self' \<Rightarrow> time_loop self')
      | Some _ \<Rightarrow> Inl TypeError)"

section \<open>The generalized-alpha scheme\<close>

text \<open>
  What the schemes use of the mechanical system: the attribute \<^verbatim>\<open>M_constr\<close> (the mass
  matrix, or \<^verbatim>\<open>None\<close> before its assembly), the matrix that \<^verbatim>\<open>M()\<close> assembles and
  stores there, the attribute \<^verbatim>\<open>D_constr\<close> (the damping matrix, or \<^verbatim>\<open>None\<close>), and the
  methods \<^verbatim>\<open>K_and_f(u, t)\<close> and \<^verbatim>\<open>f_ext(u, du, t)\<close>. \<^verbatim>\<open>K_and_f()\<close> without arguments
  evaluates at the zero displacement of \<^verbatim>\<open>ms_ndof\<close> entries and at time 0.
\<close>

record mech_system =
  ms_M_constr :: "mat option"
  ms_M :: mat
  ms_D_constr :: "mat option"
  ms_K_and_f :: "vec \<Rightarrow> real \<Rightarrow> mat \<times> vec"
  ms_f_ext :: "vec \<Rightarrow> vec \<Rightarrow> real \<Rightarrow> vec"
  ms_ndof :: nat

text \<open>\<^verbatim>\<open>if self.mechanical_system.M_constr is None: self.mechanical_system.M()\<close>, then
  \<^verbatim>\<open>self.mechanical_system.M_constr\<close>.\<close>

definition mass :: "mech_system \<Rightarrow> mat" where
  "mass ms = (case ms_M_constr ms of None \<Rightarrow> ms_M ms | Some m \<Rightarrow> m)"

text \<open>\<^verbatim>\<open>GeneralizedAlphaNonlinearDynamicsSolver.predict\<close>: the arrays are updated in
  place, in the order \<^verbatim>\<open>q\<close>, \<^verbatim>\<open>dq\<close>, \<^verbatim>\<open>ddq\<close>.\<close>

definition ga_predict ::
  "ga_params \<Rightarrow> real \<Rightarrow> vec \<Rightarrow> vec \<Rightarrow> vec \<Rightarrow> vec \<Rightarrow> py_error + vec \<times> vec \<times> vec \<times> vec" where
  "ga_predict p dt q dq v ddq =
     (let q' = vadd q (vadd (vscale dt dq) (vscale (dt\<^sup>2 * (0.5 - beta p)) ddq));
          dq' = vadd dq (vscale (dt * (1 - gamma p)) ddq);
          ddq' = vscale 0 ddq
      in Inr (q', dq', v, ddq'))"

text \<open>\<^verbatim>\<open>GeneralizedAlphaNonlinearDynamicsSolver.newton_raphson\<close>\<close>

definition ga_newton_raphson ::
  "mech_system \<Rightarrow> ga_params \<Rightarrow> real \<Rightarrow>
   vec \<Rightarrow> vec \<Rightarrow> vec \<Rightarrow> vec \<Rightarrow> real \<Rightarrow> vec \<Rightarrow> vec \<Rightarrow> vec \<Rightarrow> vec \<Rightarrow> real \<Rightarrow>
   py_error + mat \<times> vec \<times> vec" where
  "ga_newton_raphson ms p dt q dq v ddq t q_old dq_old v_old ddq_old t_old =
     (let ddq_m = vadd (vscale (1 - alpha_m p) ddq) (vscale (alpha_m p) ddq_old);
          q_f = vadd (vscale (1 - alpha_f p) q) (vscale (alpha_f p) q_old);
          dq_f = vadd (vscale (1 - alpha_f p) dq) (vscale (alpha_f p) dq_old);
          t_f = (1 - alpha_f p) * t + alpha_f p * t_old;
          (K_f, f_f) = ms_K_and_f ms q_f t_f;
          f_ext_f = ms_f_ext ms q_f dq_f t_f
      in case ms_D_constr ms of
           None \<Rightarrow>
             if beta p * dt\<^sup>2 = 0 then Inl ZeroDivisionError
             else
               Inr (msub (mscale (- (1 - alpha_m p) / (beta p * dt\<^sup>2)) (mass ms))
                         (mscale (1 - alpha_f p) K_f),
                    vsub (vsub f_ext_f (matvec (mass ms) ddq_m)) f_f,
                    f_ext_f)
         | Some D \<Rightarrow>
             if beta p * dt\<^sup>2 = 0 \<or> beta p * dt = 0 then Inl ZeroDivisionError
             else
               Inr (msub (msub (mscale (- (1 - alpha_m p) / (beta p * dt\<^sup>2)) (mass ms))
                               (mscale ((1 - alpha_f p) * gamma p / (beta p * dt)) D))
                         (mscale (1 - alpha_f p) K_f),
                    vsub (vsub (vsub f_ext_f (matvec (mass ms) ddq_m)) (matvec D dq_f)) f_f,
                    f_ext_f))"

text \<open>\<^verbatim>\<open>GeneralizedAlphaNonlinearDynamicsSolver.correct\<close>\<close>

definition ga_correct ::
  "ga_params \<Rightarrow> real \<Rightarrow> vec \<Rightarrow> vec \<Rightarrow> vec \<Rightarrow> vec \<Rightarrow> vec \<Rightarrow> py_error + vec \<times> vec \<times> vec \<times> vec" where
  "ga_correct p dt q dq v ddq delta_q =
     (if beta p * dt = 0 \<or> beta p * dt\<^sup>2 = 0 then Inl ZeroDivisionError
      else
        Inr (vadd q delta_q,
             vadd dq (vscale (gamma p / (beta p * dt)) delta_q),
             v,
             vadd ddq (vscale (1 / (beta p * dt\<^sup>2)) delta_q)))"

text \<open>
  The Jacobian and the residual of the generalized-alpha scheme as the specification
  words them: at the blended state, the Jacobian
  \<open>- [(1 - alpha_m) / (beta dt\<^sup>2)] M - (1 - alpha_f) [gamma / (beta dt)] D - (1 - alpha_f) K\<close>
  and the residual \<open>f_ext - M ddq_m - D dq_f - f_int\<close>, both without their \<open>D\<close> term
  when the system has no damping operator.
\<close>

definition spec_blend :: "real \<Rightarrow> vec \<Rightarrow> vec \<Rightarrow> vec" where
  "spec_blend a x x_old = vadd (vscale (1 - a) x) (vscale a x_old)"

definition spec_jacobian :: "ga_params \<Rightarrow> real \<Rightarrow> mat \<Rightarrow> mat option \<Rightarrow> mat \<Rightarrow> mat" where
  "spec_jacobian p dt M D K =
     (case D of
        None \<Rightarrow>
          msub (mscale (- 1) (mscale ((1 - alpha_m p) / (beta p * dt\<^sup>2)) M))
               (mscale (1 - alpha_f p) K)
      | Some D' \<Rightarrow>
          msub (msub (mscale (- 1) (mscale ((1 - alpha_m p) / (beta p * dt\<^sup>2)) M))
                     (mscale (1 - alpha_f p) (mscale (gamma p / (beta p * dt)) D')))
               (mscale (1 - alpha_f p) K))"

definition spec_residual :: "mat \<Rightarrow> mat option \<Rightarrow> vec \<Rightarrow> vec \<Rightarrow> vec \<Rightarrow> vec \<Rightarrow> vec" where
  "spec_residual M D f_ext_f ddq_m dq_f f_int_f =
     (case D of
        None \<Rightarrow> vsub (vsub f_ext_f (matvec M ddq_m)) f_int_f
      | Some D' \<Rightarrow> vsub (vsub (vsub f_ext_f (matvec M ddq_m)) (matvec D' dq_f)) f_int_f)"

section \<open>The time step loop of \<^verbatim>\<open>NonlinearDynamicsSolver.solve\<close>\<close>

text \<open>
  The attributes the two nonlinear solvers share, and the linear solver as a function:
  \<open>linsolver_solve A b\<close> is \<^verbatim>\<open>self.linsolver.set_A(A)\<close> followed by
  \<^verbatim>\<open>self.linsolver.solve(b)\<close>.
\<close>

record newton_options =
  rtol :: real
  atol :: real
  conv_abort :: bool
  write_iter :: bool
  track_niter :: bool
  linsolver_solve :: "mat \<Rightarrow> vec \<Rightarrow> vec"

text \<open>
  A nonlinear dynamics solver: its attributes, and the three methods a scheme overrides.
  The methods update their arrays \<^verbatim>\<open>q\<close>, \<^verbatim>\<open>dq\<close>, \<^verbatim>\<open>v\<close>, \<^verbatim>\<open>ddq\<close> in place; here
  they return the updated arrays, or the exception they raise.
\<close>

record dyn_solver = newton_options +
  t0 :: real
  t_end :: real
  dt :: real
  dt_output :: real
  n_iter_max :: int
  use_v :: bool
  q0 :: vec
  dq0 :: vec
  predict :: "vec \<Rightarrow> vec \<Rightarrow> vec \<Rightarrow> vec \<Rightarrow> py_error + vec \<times> vec \<times> vec \<times> vec"
  newton_raphson ::
    "vec \<Rightarrow> vec \<Rightarrow> vec \<Rightarrow> vec \<Rightarrow> real \<Rightarrow> vec \<Rightarrow> vec \<Rightarrow> vec \<Rightarrow> vec \<Rightarrow> real \<Rightarrow> py_error + mat \<times> vec \<times> vec"
  correct :: "vec \<Rightarrow> vec \<Rightarrow> vec \<Rightarrow> vec \<Rightarrow> vec \<Rightarrow> py_error + vec \<times> vec \<times> vec \<times> vec"

text \<open>The variables saved at the start of a time step.\<close>

record old_state =
  q_old :: vec
  dq_old :: vec
  v_old :: vec
  ddq_old :: vec
  f_ext_old :: vec
  t_old :: real

text \<open>The variables of the Newton-Raphson iteration loop, and the calls of
  \<^verbatim>\<open>write_timestep\<close> so far.\<close>

record newton_state =
  n_q :: vec
  n_dq :: vec
  n_v :: vec
  n_ddq :: vec
  n_Jac :: mat
  n_res :: vec
  n_f_ext :: vec
  n_res_abs :: real
  n_iter :: nat
  n_written :: "(real \<times> vec) list"

text \<open>
  How the iteration loop of a time step ends: its condition fails (\<open>Converged\<close>), the
  iteration count exceeds \<^verbatim>\<open>n_iter_max\<close> and the solve is left (\<open>Abort\<close>) or the loop
  is left (\<open>Rollback\<close>), or a method of the scheme raises.
\<close>

datatype newton_result =
    Converged newton_state
  | Rollback newton_state
  | Abort newton_state
  | Raised py_error

text \<open>One pass through the body of the iteration loop, up to the test of the iteration
  count.\<close>

definition newton_iteration ::
  "dyn_solver \<Rightarrow> real \<Rightarrow> old_state \<Rightarrow> newton_state \<Rightarrow> py_error + newton_state" where
  "newton_iteration c t old s =
     (let delta_q = vneg (linsolver_solve c (n_Jac s) (n_res s)) in
      case correct c (n_q s) (n_dq s) (n_v s) (n_ddq s) delta_q of
        Inl e \<Rightarrow> Inl e
      | Inr (q', dq', v', ddq') \<Rightarrow>
          (case newton_raphson c q' dq' v' ddq' t
                  (q_old old) (dq_old old) (v_old old) (ddq_old old) (t_old old) of
             Inl e \<Rightarrow> Inl e
           | Inr (Jac', res', f_ext') \<Rightarrow>
               Inr \<lparr>n_q = q', n_dq = dq', n_v = v', n_ddq = ddq',
                    n_Jac = Jac', n_res = res', n_f_ext = f_ext',
                    n_res_abs = norm_of_vector res',
                    n_iter = n_iter s + 1,
                    n_written =
                      (if write_iter c
                       then n_written s @ [(t + dt c / 1000000 * real (n_iter s + 1), q')]
                       else n_written s)\<rparr>))"

text \<open>The iteration loop: \<open>abs_f_ext\<close> is the value of the variable of that name.\<close>

lemma newton_iteration_n_iter:
  "newton_iteration c t old s = Inr s' \<Longrightarrow> n_iter s' = n_iter s + 1"
  by (auto simp: newton_iteration_def Let_def split: sum.splits prod.splits)

function newton_loop ::
  "dyn_solver \<Rightarrow> real \<Rightarrow> real \<Rightarrow> old_state \<Rightarrow> newton_state \<Rightarrow> newton_result" where
  "newton_loop c abs_f_ext t old s =
     (if n_res_abs s > rtol c * abs_f_ext + atol c then
        (case newton_iteration c t old s of
           Inl e \<Rightarrow> Raised e
         | Inr s' \<Rightarrow>
             if int (n_iter s') > n_iter_max c
             then (if conv_abort c then Abort s' else Rollback s')
             else newton_loop c abs_f_ext t old s')
      else Converged s)"
  by pat_completeness auto
termination
  by (relation "measure (\<lambda>(c, abs_f_ext, t, old, s). nat (n_iter_max c + 1 - int (n_iter s)))")
     (auto dest: newton_iteration_n_iter)

declare newton_loop.simps [simp del]

text \<open>The variables of the time step loop, the calls of \<^verbatim>\<open>write_timestep\<close> so far, and
  whether \<^verbatim>\<open>solve\<close> is still in its loop.\<close>

datatype status = Running | Finished | Aborted | Failed py_error

record dyn_state =
  s_t :: real
  s_q :: vec
  s_dq :: vec
  s_v :: vec
  s_ddq :: vec
  s_f_ext :: vec
  s_abs_f_ext :: real
  s_time_index :: nat
  s_written :: "(real \<times> vec) list"
  s_iteration_info :: "(real \<times> nat \<times> real) list"
  s_status :: status

definition eps :: real where
  "eps = 1 / 10 ^ 13"

text \<open>The variables before the time step loop.\<close>

definition initial_state :: "dyn_solver \<Rightarrow> dyn_state" where
  "initial_state c =
     \<lparr>s_t = t0 c, s_q = q0 c, s_dq = dq0 c,
      s_v = (if use_v c then dq0 c else []),
      s_ddq = zeros (length (q0 c)),
      s_f_ext = zeros (length (q0 c)),
      s_abs_f_ext = atol c,
      s_time_index = 0, s_written = [], s_iteration_info = [], s_status = Running\<rparr>"

text \<open>\<^verbatim>\<open>time_range = np.arange(self.t0, self.t_end, self.dt_output)\<close>\<close>

definition time_range :: "dyn_solver \<Rightarrow> real list" where
  "time_range c = arange (t0 c) (t_end c) (dt_output c)"

text \<open>The output at the start of a pass of the time step loop; \<open>Finished\<close> is its
  \<^verbatim>\<open>break\<close>.\<close>

definition write_output :: "real list \<Rightarrow> dyn_state \<Rightarrow> dyn_state" where
  "write_output tr st =
     (if s_t st + eps \<ge> tr ! s_time_index st then
        let st' = st\<lparr>s_written := s_written st @ [(s_t st, s_q st)],
                     s_time_index := s_time_index st + 1\<rparr>
        in if s_time_index st' = length tr then st'\<lparr>s_status := Finished\<rparr> else st'
      else st)"

text \<open>The first evaluation of a time step: the prediction, then the Jacobian, the
  residual and the external force.\<close>

definition predicted ::
  "dyn_solver \<Rightarrow> dyn_state \<Rightarrow> py_error + newton_state" where
  "predicted c st =
     (case predict c (s_q st) (s_dq st) (s_v st) (s_ddq st) of
        Inl e \<Rightarrow> Inl e
      | Inr (q', dq', v', ddq') \<Rightarrow>
          (case newton_raphson c q' dq' v' ddq' (s_t st + dt c)
                  (s_q st) (s_dq st) (s_v st) (s_ddq st) (s_t st) of
             Inl e \<Rightarrow> Inl e
           | Inr (Jac, res, f_ext) \<Rightarrow>
               Inr \<lparr>n_q = q', n_dq = dq', n_v = v', n_ddq = ddq',
                    n_Jac = Jac, n_res = res, n_f_ext = f_ext,
                    n_res_abs = norm_of_vector res, n_iter = 0,
                    n_written = s_written st\<rparr>))"

definition saved :: "dyn_state \<Rightarrow> old_state" where
  "saved st =
     \<lparr>q_old = s_q st, dq_old = s_dq st, v_old = s_v st, ddq_old = s_ddq st,
      f_ext_old = s_f_ext st, t_old = s_t st\<rparr>"

definition tracked ::
  "dyn_solver \<Rightarrow> real \<Rightarrow> newton_state \<Rightarrow> (real \<times> nat \<times> real) list \<Rightarrow> (real \<times> nat \<times> real) list" where
  "tracked c t s info = (if track_niter c then info @ [(t, n_iter s, n_res_abs s)] else info)"

text \<open>The rest of a pass: the old variables are saved, the time advances, the scheme
  predicts, the iteration loop runs, and its end decides the variables of the next pass.\<close>

definition advance :: "dyn_solver \<Rightarrow> dyn_state \<Rightarrow> dyn_state" where
  "advance c st =
     (case predicted c st of
        Inl e \<Rightarrow> st\<lparr>s_status := Failed e\<rparr>
      | Inr s0 \<Rightarrow>
          let abs_f_ext = max (s_abs_f_ext st) (norm_of_vector (n_f_ext s0)) in
          (case newton_loop c abs_f_ext (s_t st + dt c) (saved st) s0 of
             Raised e \<Rightarrow> st\<lparr>s_status := Failed e\<rparr>
           | Converged s \<Rightarrow>
               st\<lparr>s_t := s_t st + dt c, s_q := n_q s, s_dq := n_dq s, s_v := n_v s,
                  s_ddq := n_ddq s, s_f_ext := n_f_ext s, s_abs_f_ext := abs_f_ext,
                  s_written := n_written s,
                  s_iteration_info := tracked c (s_t st + dt c) s (s_iteration_info st)\<rparr>
           | Abort s \<Rightarrow>
               st\<lparr>s_t := s_t st + dt c, s_q := n_q s, s_dq := n_dq s, s_v := n_v s,
                  s_ddq := n_ddq s, s_f_ext := n_f_ext s, s_abs_f_ext := abs_f_ext,
                  s_written := n_written s, s_status := Aborted\<rparr>
           | Rollback s \<Rightarrow>
               st\<lparr>s_t := t_old (saved st), s_q := q_old (saved st),
                  s_dq := dq_old (saved st), s_v := v_old (saved st),
                  s_ddq := n_ddq s, s_f_ext := f_ext_old (saved st),
                  s_abs_f_ext := abs_f_ext,
                  s_written := n_written s,
                  s_iteration_info := tracked c (t_old (saved st)) s (s_iteration_info st)\<rparr>))"

text \<open>One pass of \<^verbatim>\<open>while time_index < len(time_range)\<close>.\<close>

definition time_step :: "dyn_solver \<Rightarrow> real list \<Rightarrow> dyn_state \<Rightarrow> dyn_state" where
  "time_step c tr st =
     (if s_time_index st < length tr then
        let st' = write_output tr st
        in if s_status st' = Running then advance c st' else st'
      else st\<lparr>s_status := Finished\<rparr>)"

text \<open>
  The state after at most \<open>n\<close> passes. A solve whose steps are rolled back again and
  again does not leave the loop, so the loop is run for a number of passes.
\<close>

fun run :: "dyn_solver \<Rightarrow> real list \<Rightarrow> nat \<Rightarrow> dyn_state \<Rightarrow> dyn_state" where
  "run c tr 0 st = st"
| "run c tr (Suc n) st = (if s_status st = Running then run c tr n (time_step c tr st) else st)"

text \<open>The time step loop of \<^verbatim>\<open>solve\<close>, with \<open>None\<close> when \<open>fuel\<close> passes do not
  end it.\<close>

definition solve_time_loop :: "dyn_solver \<Rightarrow> nat \<Rightarrow> dyn_state option" where
  "solve_time_loop c fuel =
     (let st = run c (time_range c) fuel (initial_state c)
      in if s_status st = Running then None else Some st)"

text \<open>How the iteration loop of the pass that starts in \<open>st\<close>, after its output, ends.\<close>

definition newton_outcome :: "dyn_solver \<Rightarrow> dyn_state \<Rightarrow> newton_result" where
  "newton_outcome c st =
     (case predicted c st of
        Inl e \<Rightarrow> Raised e
      | Inr s0 \<Rightarrow>
          newton_loop c (max (s_abs_f_ext st) (norm_of_vector (n_f_ext s0)))
            (s_t st + dt c) (saved st) s0)"

text \<open>The state in which the iteration loop ends, whichever way it ends.\<close>

fun final_state :: "newton_result \<Rightarrow> newton_state option" where
  "final_state (Converged s) = Some s"
| "final_state (Rollback s) = Some s"
| "final_state (Abort s) = Some s"
| "final_state (Raised e) = None"

text \<open>The time and the displacement that the pass of the time step loop starting in
  \<open>st\<close> accepts: those with which its iteration loop converges, if it does.\<close>

definition accepted_at :: "dyn_solver \<Rightarrow> real list \<Rightarrow> dyn_state \<Rightarrow> (real \<times> vec) option" where
  "accepted_at c tr st =
     (if s_status st = Running \<and> s_time_index st < length tr
         \<and> s_status (write_output tr st) = Running
      then (case newton_outcome c (write_output tr st) of
              Converged s \<Rightarrow> Some (s_t st + dt c, n_q s)
            | _ \<Rightarrow> None)
      else None)"

text \<open>The times written are in order and none is later than the current time.\<close>

definition times_ordered :: "dyn_state \<Rightarrow> bool" where
  "times_ordered st =
     (sorted (map fst (s_written st))
      \<and> list_all (\<lambda>x. fst x \<le> s_t st) (s_written st))"

text \<open>The initial time and displacement, and those accepted by one of the first \<open>n\<close>
  passes.\<close>

definition accepted_before :: "dyn_solver \<Rightarrow> real list \<Rightarrow> nat \<Rightarrow> real \<times> vec \<Rightarrow> bool" where
  "accepted_before c tr n x =
     (x = (t0 c, q0 c)
      \<or> list_ex (\<lambda>k. accepted_at c tr (run c tr k (initial_state c)) = Some x) [0 ..< n])"

text \<open>
  A solver whose three methods are those of the generalized-alpha scheme, for the
  mechanical system \<open>ms\<close> and the parameters \<open>p\<close>; its other attributes are those of
  \<open>c\<close>.
\<close>

definition generalized_alpha_solver :: "mech_system \<Rightarrow> ga_params \<Rightarrow> dyn_solver \<Rightarrow> dyn_solver" where
  "generalized_alpha_solver ms p c =
     c\<lparr>use_v := False,
       predict := ga_predict p (dt c),
       newton_raphson := ga_newton_raphson ms p (dt c),
       correct := ga_correct p (dt c)\<rparr>"

section \<open>\<^verbatim>\<open>NonlinearStaticsSolver.solve\<close>\<close>

record statics_solver = newton_options +
  no_of_load_steps :: int
  newton_damping :: real
  n_max_iter :: int
  smplfd_nwtn_itr :: int
  save :: bool

text \<open>The variables of the Newton iteration loop of a load step, and the calls of
  \<^verbatim>\<open>write_timestep\<close> so far.\<close>

record static_state =
  ss_u :: vec
  ss_K :: mat
  ss_f_int :: vec
  ss_f_ext :: vec
  ss_res :: vec
  ss_abs_res :: real
  ss_abs_f_ext :: real
  ss_n_iter :: nat
  ss_written :: "(real \<times> vec) list"

datatype static_result =
    SDone static_state
  | SAbort static_state
  | SRaised py_error

text \<open>
  One pass through the body of the Newton iteration loop, up to the test of the iteration
  count. \<^verbatim>\<open>(n_iter % self.smplfd_nwtn_itr) is 0\<close> holds when the remainder is zero
  (the two operands are integers), and the remainder of a division by zero raises.
\<close>

definition static_iteration ::
  "statics_solver \<Rightarrow> mech_system \<Rightarrow> vec \<Rightarrow> real \<Rightarrow> static_state \<Rightarrow> py_error + static_state" where
  "static_iteration c ms du t s =
     (let delta_u = linsolver_solve c (ss_K s) (ss_res s);
          u' = vadd (ss_u s) (vscale (newton_damping c) delta_u)
      in if smplfd_nwtn_itr c = 0 then Inl ZeroDivisionError
         else
           let (K', f_int', f_ext') =
                 (if int (ss_n_iter s) mod smplfd_nwtn_itr c = 0
                  then (let (K, f) = ms_K_and_f ms u' t in (K, f, ms_f_ext ms u' du t))
                  else (ss_K s, ss_f_int s, ss_f_ext s));
               res' = vadd (vneg f_int') f_ext'
           in Inr \<lparr>ss_u = u', ss_K = K', ss_f_int = f_int', ss_f_ext = f_ext',
                   ss_res = res',
                   ss_abs_res = norm_of_vector res',
                   ss_abs_f_ext = norm_of_vector f_ext',
                   ss_n_iter = ss_n_iter s + 1,
                   ss_written =
                     (if write_iter c
                      then ss_written s @ [(t + real (ss_n_iter s + 1) * 0.000001, u')]
                      else ss_written s)\<rparr>)"

lemma static_iteration_n_iter:
  "static_iteration c ms du t s = Inr s' \<Longrightarrow> ss_n_iter s' = ss_n_iter s + 1"
  by (auto simp: static_iteration_def Let_def split: if_splits prod.splits)

function static_newton ::
  "statics_solver \<Rightarrow> mech_system \<Rightarrow> vec \<Rightarrow> real \<Rightarrow> static_state \<Rightarrow> static_result" where
  "static_newton c ms du t s =
     (if ss_abs_res s > rtol c * ss_abs_f_ext s + atol c \<and> n_max_iter c > int (ss_n_iter s) then
        (case static_iteration c ms du t s of
           Inl e \<Rightarrow> SRaised e
         | Inr s' \<Rightarrow>
             if int (ss_n_iter s') \<ge> n_max_iter c \<and> conv_abort c then SAbort s'
             else static_newton c ms du t s')
      else SDone s)"
  by pat_completeness auto
termination
  by (relation "measure (\<lambda>(c, ms, du, t, s). nat (n_max_iter c - int (ss_n_iter s)))")
     (auto dest: static_iteration_n_iter)

declare static_newton.simps [simp del]







section \<open>Example inputs\<close>

text \<open>A mechanical system with one degree of freedom, as the constructors read it.\<close>

definition example_system :: pyval where
  "example_system = PObject ''MechanicalSystem'' [(''no_of_dofs'', PInt 1)]"

text \<open>A unit mass on a unit linear spring, without damping and without load.\<close>

definition spring_mass :: mech_system where
  "spring_mass =
     \<lparr>ms_M_constr = None, ms_M = [[1]], ms_D_constr = None,
      ms_K_and_f = (\<lambda>u t. ([[1]], u)), ms_f_ext = (\<lambda>u du t. [0]), ms_ndof = 1\<rparr>"

text \<open>The generalized-alpha parameters for \<^verbatim>\<open>rho_inf = 1\<close>.\<close>

definition half_params :: ga_params where
  "half_params = \<lparr>alpha_m = 1/2, alpha_f = 1/2, beta = 1/4, gamma = 1/2\<rparr>"

text \<open>A linear solver for one degree of freedom, and a unit spring under a unit load.\<close>

definition scalar_solve :: "mat \<Rightarrow> vec \<Rightarrow> vec" where
  "scalar_solve A b = [hd b / hd (hd A)]"

definition loaded_spring :: mech_system where
  "loaded_spring =
     \<lparr>ms_M_constr = None, ms_M = [[1]], ms_D_constr = None,
      ms_K_and_f = (\<lambda>u t. ([[1]], u)), ms_f_ext = (\<lambda>u du t. [1]), ms_ndof = 1\<rparr>"

text \<open>A statics solver that damps its corrections and evaluates the stiffness and the
  forces on every second iteration.\<close>

definition damped_statics :: statics_solver where
  "damped_statics =
     \<lparr>rtol = 0, atol = 0, conv_abort = True, write_iter = False, track_niter = False,
      linsolver_solve = scalar_solve,
      no_of_load_steps = 1, newton_damping = 1/2, n_max_iter = 1000, smplfd_nwtn_itr = 2,
      save = True\<rparr>"





text \<open>
  The attributes of a dynamics solver with the default options, for one degree of freedom,
  from the step size, the end time, the absolute tolerance, the iteration limit, whether it
  aborts, and the initial displacement and velocity.
\<close>

definition dynamics_with ::
  "real \<Rightarrow> real \<Rightarrow> real \<Rightarrow> int \<Rightarrow> bool \<Rightarrow> vec \<Rightarrow> vec \<Rightarrow> dyn_solver" where
  "dynamics_with step end_time tol n abort q dq =
     \<lparr>rtol = 1 / 10 ^ 9, atol = tol, conv_abort = abort, write_iter = False,
      track_niter = False, linsolver_solve = scalar_solve,
      t0 = 0, t_end = end_time, dt = step, dt_output = step, n_iter_max = n, use_v = False,
      q0 = q, dq0 = dq,
      predict = (\<lambda>q dq v ddq. Inr (q, dq, v, ddq)),
      newton_raphson = (\<lambda>q dq v ddq t q_old dq_old v_old ddq_old t_old. Inr ([], [], [])),
      correct = (\<lambda>q dq v ddq delta_q. Inr (q, dq, v, ddq))\<rparr>"

text \<open>The generalized-alpha solver for the unloaded unit mass on its spring, at rest,
  with the absolute tolerance \<open>tol\<close>.\<close>

definition resting_solver :: "real \<Rightarrow> dyn_solver" where
  "resting_solver tol =
     generalized_alpha_solver spring_mass half_params (dynamics_with 1 2 tol 30 True [0] [0])"

text \<open>The generalized-alpha solver for the unloaded unit mass on its spring, released
  from the displacement 1, which rolls a time step back after its first iteration.\<close>

definition released_solver :: dyn_solver where
  "released_solver =
     generalized_alpha_solver spring_mass half_params
       (dynamics_with 1 2 (1 / 10 ^ 6) 0 False [1] [0])"

text \<open>The generalized-alpha solver at rest that steps backwards in time.\<close>

definition backward_solver :: dyn_solver where
  "backward_solver =
     generalized_alpha_solver spring_mass half_params
       (dynamics_with (- 1) (- 2) (1 / 10 ^ 6) 30 True [0] [0])"

section \<open>Properties of the scheme parameters\<close>

lemma ga_set_parameters_one:
  "ga_set_parameters 1 = Inr \<lparr>alpha_m = 1/2, alpha_f = 1/2, beta = 1/4, gamma = 1/2\<rparr>"
  by (simp add: ga_set_parameters_def Let_def power2_eq_square)

lemma jwh_set_parameters_one:
  "jwh_set_parameters 1 = Inr \<lparr>jwh_alpha_m = 1/2, jwh_alpha_f = 1/2, jwh_gamma = 1/2\<rparr>"
  by (simp add: jwh_set_parameters_def Let_def)

text \<open>
  C4, as stated: for \<^verbatim>\<open>rho_inf = 1\<close> the generalized-alpha parameters are
  \<^verbatim>\<open>alpha_m = 0\<close>, \<^verbatim>\<open>alpha_f = 0\<close>, \<^verbatim>\<open>beta = 0.25\<close>, \<^verbatim>\<open>gamma = 0.5\<close>.
  The code gives other values of \<^verbatim>\<open>alpha_m\<close> and \<^verbatim>\<open>alpha_f\<close>: the statement is false.
\<close>

theorem C4_rho_one_alpha_zero_counterexample:
  "\<not> (ga_set_parameters 1 = Inr \<lparr>alpha_m = 0, alpha_f = 0, beta = 0.25, gamma = 0.5\<rparr>)"
  by (simp add: ga_set_parameters_one)

text \<open>
  C4, amended: for \<^verbatim>\<open>rho_inf = 1\<close> the generalized-alpha solver's \<^verbatim>\<open>set_parameters\<close>
  gives \<^verbatim>\<open>alpha_m = alpha_f = 0.5\<close>, \<^verbatim>\<open>beta = 0.25\<close> and \<^verbatim>\<open>gamma = 0.5\<close>, and the JWH-alpha
  solver's gives \<^verbatim>\<open>alpha_m = alpha_f = 0.5\<close> and \<^verbatim>\<open>gamma = 0.5\<close> (it computes no
  \<^verbatim>\<open>beta\<close>).
\<close>

theorem C4_rho_one_parameters:
  "ga_set_parameters 1 = Inr \<lparr>alpha_m = 0.5, alpha_f = 0.5, beta = 0.25, gamma = 0.5\<rparr>
   \<and> jwh_set_parameters 1 = Inr \<lparr>jwh_alpha_m = 0.5, jwh_alpha_f = 0.5, jwh_gamma = 0.5\<rparr>"
  by (simp add: ga_set_parameters_def jwh_set_parameters_def Let_def power2_eq_square)

section \<open>Calls that cannot bind their arguments\<close>


lemma map_of_setattr:
  "map_of (setattr k x d) k' = (if k' = k then Some x else map_of d k')"
  by (induction d) (auto simp: setattr_def)

lemma bind_call_too_many:
  "length (params sg) < length args \<Longrightarrow> bind_call sg args kwargs = Inl TypeError"
  by (simp add: bind_call_def Let_def)


lemma bind_call_error:
  "bind_call sg args kwargs = Inl e \<Longrightarrow> e = TypeError"
  by (auto simp: bind_call_def Let_def split: if_splits)

lemma bind_call_init_sig:
  "bind_call init_sig args kwargs = Inr (vals, options) \<Longrightarrow>
   options = filter (\<lambda>kv. fst kv \<noteq> ''mechanical_system'') kwargs"
  by (auto simp: bind_call_def init_sig_def Let_def split: if_splits)

lemma Solver_init_ok:
  "''mechanical_system'' \<notin> set (keys options) \<Longrightarrow>
   \<exists>self'. Solver_init self [ms] options = Inr self' \<and>
     map_of self' ''options'' = map_of self ''options''"
  apply (simp add: Solver_init_def bind_call_def init_sig_def Let_def list_ex_iff
      List.map_filter_simps map_of_setattr split: option.splits)
  done







text \<open>The method of the base class takes any keywords, so the base class reaches its
  time step loop.\<close>

lemma base_solve_reaches_time_loop:
  assumes "map_of self ''options'' = Some (PDict options)"
  shows "NonlinearDynamicsSolver_solve NonlinearDynamicsSolver_set_parameters self time_loop
           = time_loop self"
  by (simp add: NonlinearDynamicsSolver_solve_def assms NonlinearDynamicsSolver_set_parameters_def
      bind_call_def Let_def list_ex_iff)





lemma LinearStaticsSolver_init_raises:
  "LinearStaticsSolver_init self args kwargs = Inl TypeError"
proof (cases "bind_call init_sig args kwargs")
  case (Inl e)
  then show ?thesis
    by (simp add: LinearStaticsSolver_init_def bind_call_error[OF Inl])
next
  case (Inr r)
  obtain vals options where r: "r = (vals, options)" by (cases r)
  have "Solver_init self [x, PDict options] [] = Inl TypeError" for x
    by (simp add: Solver_init_def init_sig_def bind_call_too_many)
  then show ?thesis
    by (simp add: LinearStaticsSolver_init_def Inr r split: list.splits)
qed

lemma filter_keys_notin:
  "''mechanical_system'' \<notin> set (keys (filter (\<lambda>kv. fst kv \<noteq> ''mechanical_system'') kwargs))"
  by (auto simp: keys_def)

lemma set_initial_conditions_positional:
  "set_initial_conditions self [x] [] = Inl TypeError"
  by (simp add: set_initial_conditions_def bind_call_too_many)

lemma LinearDynamicsSolver_init_raises:
  "LinearDynamicsSolver_init self args kwargs =
     (case bind_call init_sig args kwargs of
        Inl e \<Rightarrow> Inl TypeError
      | Inr (vals, options) \<Rightarrow>
          if length vals = 1 \<and> \<not> has_key ''initial_conditions'' options then Inl KeyError
          else Inl TypeError)"
proof (cases "bind_call init_sig args kwargs")
  case (Inl e)
  then show ?thesis
    by (simp add: LinearDynamicsSolver_init_def bind_call_error[OF Inl])
next
  case (Inr r)
  obtain vals options where r: "r = (vals, options)" by (cases r)
  have opts: "''mechanical_system'' \<notin> set (keys options)"
    using bind_call_init_sig[OF Inr[unfolded r]] filter_keys_notin by simp
  show ?thesis
  proof (cases vals)
    case Nil
    then show ?thesis by (simp add: LinearDynamicsSolver_init_def Inr r)
  next
    case (Cons ms rest)
    show ?thesis
    proof (cases rest)
      case Nil
      obtain self' where s: "Solver_init self [ms] options = Inr self'"
        using Solver_init_ok[OF opts] by blast
      show ?thesis
        by (auto simp: LinearDynamicsSolver_init_def Inr r Cons Nil s Let_def has_key_def keys_def
            set_initial_conditions_positional map_of_eq_None_iff
            split: option.splits dest: map_of_SomeD intro: rev_image_eqI)
    next
      case (Cons a b)
      then show ?thesis
        using \<open>vals = ms # rest\<close> by (simp add: LinearDynamicsSolver_init_def Inr r)
    qed
  qed
qed

lemma scheme_init_Linear_raises:
  "scheme_init LinearDynamicsSolver_init b self args kwargs = Inl TypeError
   \<or> scheme_init LinearDynamicsSolver_init b self args kwargs = Inl KeyError"
  by (auto simp: scheme_init_def LinearDynamicsSolver_init_raises
      split: sum.splits prod.splits list.splits dest: bind_call_error)


lemma bind_call_init_sig_vals:
  "bind_call init_sig args kwargs = Inr (vals, options) \<Longrightarrow> \<exists>ms. vals = [ms]"
  by (cases args)
     (auto simp: bind_call_def init_sig_def Let_def has_key_def keys_def List.map_filter_simps
        map_of_eq_None_iff split: if_splits option.splits)

lemma bind_call_init_sig_again:
  "''mechanical_system'' \<notin> set (keys options) \<Longrightarrow>
   bind_call init_sig [ms] options = Inr ([ms], options)"
  by (force simp: bind_call_def init_sig_def Let_def list_ex_iff List.map_filter_simps keys_def
      filter_id_conv)

lemma LinearDynamicsSolver_init_bound:
  assumes "bind_call init_sig args kwargs = Inr (vals, options)"
  shows "LinearDynamicsSolver_init self args kwargs =
           Inl (if has_key ''initial_conditions'' options then TypeError else KeyError)"
  using bind_call_init_sig_vals[OF assms]
  by (auto simp: LinearDynamicsSolver_init_raises assms)

lemma scheme_init_Linear_bound:
  assumes "bind_call init_sig args kwargs = Inr (vals, options)"
  shows "scheme_init LinearDynamicsSolver_init b self args kwargs =
           Inl (if has_key ''initial_conditions'' options then TypeError else KeyError)"
proof -
  obtain ms where v: "vals = [ms]"
    using bind_call_init_sig_vals[OF assms] by blast
  have opts: "''mechanical_system'' \<notin> set (keys options)"
    using bind_call_init_sig[OF assms] filter_keys_notin by simp
  show ?thesis
    using LinearDynamicsSolver_init_bound[OF bind_call_init_sig_again[OF opts], of self ms]
    by (simp add: scheme_init_def assms v)
qed

text \<open>
  C9: none of the linear solver classes can be constructed. For all arguments,
  \<^verbatim>\<open>LinearStaticsSolver.__init__\<close> raises \<^verbatim>\<open>TypeError\<close> (the options dictionary is a second
  positional argument of \<^verbatim>\<open>Solver.__init__\<close>, which has one parameter), and
  \<^verbatim>\<open>LinearDynamicsSolver.__init__\<close>, hence also the constructors of
  \<^verbatim>\<open>GeneralizedAlphaLinearDynamicsSolver\<close> and \<^verbatim>\<open>JWHAlphaLinearDynamicsSolver\<close>, raises:
  when the call binds its own arguments, \<^verbatim>\<open>TypeError\<close> if the options hold the key
  \<^verbatim>\<open>initial_conditions\<close> (its value is a positional argument of
  \<^verbatim>\<open>set_initial_conditions\<close>, which has no parameter) and \<^verbatim>\<open>KeyError\<close> if they do not.
\<close>

theorem C9_linear_solvers_never_constructed:
  "LinearStaticsSolver_init self args kwargs = Inl TypeError
   \<and> (LinearDynamicsSolver_init self args kwargs = Inl TypeError
      \<or> LinearDynamicsSolver_init self args kwargs = Inl KeyError)
   \<and> (GeneralizedAlphaLinearDynamicsSolver_init self args kwargs = Inl TypeError
      \<or> GeneralizedAlphaLinearDynamicsSolver_init self args kwargs = Inl KeyError)
   \<and> (JWHAlphaLinearDynamicsSolver_init self args kwargs = Inl TypeError
      \<or> JWHAlphaLinearDynamicsSolver_init self args kwargs = Inl KeyError)
   \<and> (bind_call init_sig args kwargs = Inr (vals, options) \<longrightarrow>
        LinearDynamicsSolver_init self args kwargs =
          Inl (if has_key ''initial_conditions'' options then TypeError else KeyError)
      \<and> GeneralizedAlphaLinearDynamicsSolver_init self args kwargs =
          Inl (if has_key ''initial_conditions'' options then TypeError else KeyError)
      \<and> JWHAlphaLinearDynamicsSolver_init self args kwargs =
          Inl (if has_key ''initial_conditions'' options then TypeError else KeyError))"
proof -
  have 1: "LinearDynamicsSolver_init self args kwargs = Inl TypeError
      \<or> LinearDynamicsSolver_init self args kwargs = Inl KeyError"
    by (auto simp: LinearDynamicsSolver_init_raises split: sum.splits prod.splits)
  show ?thesis
    using 1 scheme_init_Linear_raises[of False self args kwargs]
      scheme_init_Linear_raises[of True self args kwargs]
    by (auto simp: LinearStaticsSolver_init_raises GeneralizedAlphaLinearDynamicsSolver_init_def
        JWHAlphaLinearDynamicsSolver_init_def LinearDynamicsSolver_init_bound
        scheme_init_Linear_bound)
qed

theorem C9_linear_solvers_never_constructed_witness:
  "LinearStaticsSolver_init [] [example_system] [(''dt'', PFloat (1 / 100))] = Inl TypeError
   \<and> LinearDynamicsSolver_init [] [example_system] [(''dt'', PFloat (1 / 100))] = Inl KeyError
   \<and> GeneralizedAlphaLinearDynamicsSolver_init [] [example_system]
        [(''dt'', PFloat (1 / 100)), (''initial_conditions'', PDict [])] = Inl TypeError
   \<and> JWHAlphaLinearDynamicsSolver_init [] [example_system]
        [(''dt'', PFloat (1 / 100)), (''initial_conditions'', PDict [])] = Inl TypeError"
proof -
  have b1: "bind_call init_sig [example_system] [(''dt'', PFloat (1 / 100))]
              = Inr ([example_system], [(''dt'', PFloat (1 / 100))])"
    by (simp add: bind_call_def init_sig_def Let_def keys_def List.map_filter_simps)
  have b2: "bind_call init_sig [example_system]
              [(''dt'', PFloat (1 / 100)), (''initial_conditions'', PDict [])]
              = Inr ([example_system], [(''dt'', PFloat (1 / 100)), (''initial_conditions'', PDict [])])"
    by (simp add: bind_call_def init_sig_def Let_def keys_def List.map_filter_simps)
  show ?thesis
    using C9_linear_solvers_never_constructed[of "[]" "[example_system]"
        "[(''dt'', PFloat (1 / 100))]" "[example_system]" "[(''dt'', PFloat (1 / 100))]"]
      C9_linear_solvers_never_constructed[of "[]" "[example_system]"
        "[(''dt'', PFloat (1 / 100)), (''initial_conditions'', PDict [])]" "[example_system]"
        "[(''dt'', PFloat (1 / 100)), (''initial_conditions'', PDict [])]"]
    by (simp add: b1 b2 has_key_def keys_def)
qed

section \<open>The Jacobian and the residual of the generalized-alpha scheme\<close>

lemma mscale_mscale: "mscale a (mscale b A) = mscale (a * b) A"
  by (simp add: mscale_def vscale_def mult.assoc)

text \<open>
  C5: where its divisions are defined (\<open>beta dt \<noteq> 0\<close>),
  \<^verbatim>\<open>GeneralizedAlphaNonlinearDynamicsSolver.newton_raphson\<close> returns, at the blended state
  \<open>q_f = (1 - alpha_f) q + alpha_f q_old\<close>, \<open>dq_f\<close> and \<open>t_f\<close> likewise and
  \<open>ddq_m = (1 - alpha_m) ddq + alpha_m ddq_old\<close>, the Jacobian
  \<open>- [(1 - alpha_m) / (beta dt\<^sup>2)] M - (1 - alpha_f) [gamma / (beta dt)] D - (1 - alpha_f) K(q_f, t_f)\<close>
  and the residual \<open>f_ext(q_f, dq_f, t_f) - M ddq_m - D dq_f - f_int(q_f, t_f)\<close>, and
  without the two \<open>D\<close> terms when \<^verbatim>\<open>D_constr\<close> is \<^verbatim>\<open>None\<close>.
\<close>

theorem C5_ga_newton_raphson_formulas:
  fixes dt t_old :: real and q_old dq_old v_old ddq_old :: vec
  assumes "beta p * dt \<noteq> 0"
  shows "ga_newton_raphson ms p dt q dq v ddq t q_old dq_old v_old ddq_old t_old =
     (let q_f = spec_blend (alpha_f p) q q_old;
          dq_f = spec_blend (alpha_f p) dq dq_old;
          t_f = (1 - alpha_f p) * t + alpha_f p * t_old;
          ddq_m = spec_blend (alpha_m p) ddq ddq_old;
          K_f = fst (ms_K_and_f ms q_f t_f);
          f_int_f = snd (ms_K_and_f ms q_f t_f);
          f_ext_f = ms_f_ext ms q_f dq_f t_f
      in Inr (spec_jacobian p dt (mass ms) (ms_D_constr ms) K_f,
              spec_residual (mass ms) (ms_D_constr ms) f_ext_f ddq_m dq_f f_int_f,
              f_ext_f))"
proof -
  have nz: "beta p * dt\<^sup>2 \<noteq> 0"
    using assms by (simp add: power2_eq_square)
  have c1: "- (1 - alpha_m p) / (beta p * dt\<^sup>2) = - 1 * ((1 - alpha_m p) / (beta p * dt\<^sup>2))"
    by simp
  have c2: "(1 - alpha_f p) * gamma p / (beta p * dt) = (1 - alpha_f p) * (gamma p / (beta p * dt))"
    by simp
  show ?thesis
    unfolding ga_newton_raphson_def spec_jacobian_def spec_residual_def spec_blend_def
      mscale_mscale Let_def c1 c2
    using assms nz
    by (simp split: option.splits prod.splits)
qed

theorem C5_ga_newton_raphson_formulas_witness:
  "beta half_params * 1 \<noteq> 0
   \<and> ga_newton_raphson spring_mass half_params 1 [1] [0] [] [0] 1 [1] [0] [] [0] 0
       = Inr ([[- 5 / 2]], [- 1], [0])"
proof -
  have "beta half_params * 1 \<noteq> 0"
    by (simp add: half_params_def)
  then show ?thesis
    using C5_ga_newton_raphson_formulas[where p = half_params and dt = 1 and ms = spring_mass
        and q = "[1]" and dq = "[0]" and v = "[]" and ddq = "[0]" and t = 1
        and q_old = "[1]" and dq_old = "[0]" and v_old = "[]" and ddq_old = "[0]" and t_old = 0]
    by (simp add: half_params_def spring_mass_def spec_jacobian_def spec_residual_def
        spec_blend_def mass_def Let_def vadd_def vsub_def vscale_def msub_def mscale_def
        matvec_def dot_def)
qed

section \<open>The simplified Newton iteration of the statics solver\<close>

lemma static_iteration_res:
  "static_iteration c ms du t s0 = Inr s \<Longrightarrow> ss_res s = vadd (vneg (ss_f_int s)) (ss_f_ext s)"
  by (auto simp: static_iteration_def Let_def split: if_splits prod.splits)

lemma static_iteration_stale:
  assumes "smplfd_nwtn_itr c \<noteq> 0" and "int (ss_n_iter s) mod smplfd_nwtn_itr c \<noteq> 0"
  shows "static_iteration c ms du t s =
     Inr \<lparr>ss_u = vadd (ss_u s) (vscale (newton_damping c) (linsolver_solve c (ss_K s) (ss_res s))),
          ss_K = ss_K s, ss_f_int = ss_f_int s, ss_f_ext = ss_f_ext s,
          ss_res = vadd (vneg (ss_f_int s)) (ss_f_ext s),
          ss_abs_res = norm_of_vector (vadd (vneg (ss_f_int s)) (ss_f_ext s)),
          ss_abs_f_ext = norm_of_vector (ss_f_ext s),
          ss_n_iter = ss_n_iter s + 1,
          ss_written =
            (if write_iter c
             then ss_written s @ [(t + real (ss_n_iter s + 1) * 0.000001,
                    vadd (ss_u s) (vscale (newton_damping c) (linsolver_solve c (ss_K s) (ss_res s))))]
             else ss_written s)\<rparr>"
  using assms by (simp add: static_iteration_def Let_def)

text \<open>
  C10: in \<^verbatim>\<open>NonlinearStaticsSolver.solve\<close> with \<^verbatim>\<open>smplfd_nwtn_itr = N > 1\<close>, a Newton
  iteration whose counter is not divisible by \<open>N\<close> evaluates neither the stiffness nor
  the internal nor the external force after it has updated the displacement. The residual
  of the convergence test is then the one of the iteration before, and the next iteration
  solves for the same correction.
\<close>

theorem C10_simplified_newton_reuses_residual:
  assumes "1 < smplfd_nwtn_itr c"
    and "static_iteration c ms du t s0 = Inr s"
    and "int (ss_n_iter s) mod smplfd_nwtn_itr c \<noteq> 0"
  shows "\<exists>s'. static_iteration c ms du t s = Inr s'
           \<and> ss_K s' = ss_K s \<and> ss_f_int s' = ss_f_int s \<and> ss_f_ext s' = ss_f_ext s
           \<and> ss_res s' = ss_res s \<and> ss_abs_res s' = norm_of_vector (ss_res s)
           \<and> ss_u s' = vadd (ss_u s)
                 (vscale (newton_damping c) (linsolver_solve c (ss_K s) (ss_res s)))
           \<and> linsolver_solve c (ss_K s') (ss_res s') = linsolver_solve c (ss_K s) (ss_res s)"
proof -
  have nz: "smplfd_nwtn_itr c \<noteq> 0" using assms(1) by simp
  have res: "ss_res s = vadd (vneg (ss_f_int s)) (ss_f_ext s)"
    using assms(2) by (rule static_iteration_res)
  show ?thesis
    unfolding static_iteration_stale[OF nz assms(3)] by (simp add: res)
qed

text \<open>The example: the second iteration moves the displacement to \<open>3/4\<close> and keeps
  the residual \<open>1/2\<close>, where the residual at the new displacement is \<open>1/4\<close>.\<close>

lemma damped_first:
  "static_iteration damped_statics loaded_spring [0] 1
     \<lparr>ss_u = [0], ss_K = [[1]], ss_f_int = [0], ss_f_ext = [1], ss_res = [1],
      ss_abs_res = 1, ss_abs_f_ext = 1, ss_n_iter = 0, ss_written = []\<rparr>
   = Inr \<lparr>ss_u = [1/2], ss_K = [[1]], ss_f_int = [1/2], ss_f_ext = [1], ss_res = [1/2],
      ss_abs_res = norm_of_vector [1/2], ss_abs_f_ext = norm_of_vector [1], ss_n_iter = 1,
      ss_written = []\<rparr>"
  by (simp add: static_iteration_def damped_statics_def loaded_spring_def scalar_solve_def
      Let_def vadd_def vscale_def vneg_def)

theorem C10_simplified_newton_reuses_residual_witness:
  "\<exists>s'. static_iteration damped_statics loaded_spring [0] 1
           \<lparr>ss_u = [1/2], ss_K = [[1]], ss_f_int = [1/2], ss_f_ext = [1], ss_res = [1/2],
            ss_abs_res = norm_of_vector [1/2], ss_abs_f_ext = norm_of_vector [1], ss_n_iter = 1,
            ss_written = []\<rparr> = Inr s'
        \<and> ss_u s' = [3/4] \<and> ss_res s' = [1/2]
        \<and> vadd (vneg (snd (ms_K_and_f loaded_spring (ss_u s') 1)))
             (ms_f_ext loaded_spring (ss_u s') [0] 1) = [1/4]"
proof -
  have 1: "1 < smplfd_nwtn_itr damped_statics"
    by (simp add: damped_statics_def)
  have 2: "int (ss_n_iter \<lparr>ss_u = [1/2], ss_K = [[1]], ss_f_int = [1/2], ss_f_ext = [1],
      ss_res = [1/2], ss_abs_res = norm_of_vector [1/2], ss_abs_f_ext = norm_of_vector [1],
      ss_n_iter = 1, ss_written = []\<rparr>) mod smplfd_nwtn_itr damped_statics \<noteq> 0"
    by (simp add: damped_statics_def)
  from C10_simplified_newton_reuses_residual[OF 1 damped_first 2]
  obtain s' where "static_iteration damped_statics loaded_spring [0] 1
           \<lparr>ss_u = [1/2], ss_K = [[1]], ss_f_int = [1/2], ss_f_ext = [1], ss_res = [1/2],
            ss_abs_res = norm_of_vector [1/2], ss_abs_f_ext = norm_of_vector [1], ss_n_iter = 1,
            ss_written = []\<rparr> = Inr s'"
    and "ss_res s' = [1/2]"
    and "ss_u s' = vadd [1/2] (vscale (newton_damping damped_statics)
           (linsolver_solve damped_statics [[1]] [1/2]))"
    by auto
  then show ?thesis
    by (simp add: damped_statics_def loaded_spring_def scalar_solve_def vadd_def vscale_def
        vneg_def)
qed

section \<open>The abort of the statics solver\<close>

lemma static_newton_stop:
  assumes "\<not> (ss_abs_res s > rtol c * ss_abs_f_ext s + atol c \<and> n_max_iter c > int (ss_n_iter s))"
  shows "static_newton c ms du t s = SDone s"
  by (subst static_newton.simps) (simp only: assms if_False simp_thms)

lemma static_newton_step:
  assumes "ss_abs_res s > rtol c * ss_abs_f_ext s + atol c \<and> n_max_iter c > int (ss_n_iter s)"
  shows "static_newton c ms du t s =
     (case static_iteration c ms du t s of
        Inl e \<Rightarrow> SRaised e
      | Inr s' \<Rightarrow>
          if int (ss_n_iter s') \<ge> n_max_iter c \<and> conv_abort c then SAbort s'
          else static_newton c ms du t s')"
  by (subst static_newton.simps) (simp only: assms if_True simp_thms)


lemma static_newton_abort_inv:
  "static_newton c ms du t s = SAbort s' \<Longrightarrow>
   conv_abort c \<and> int (ss_n_iter s') \<ge> n_max_iter c \<and> ss_n_iter s < ss_n_iter s'"
proof (induction c ms du t s rule: static_newton.induct)
  case (1 c ms du t s)
  show ?case
  proof (cases "ss_abs_res s > rtol c * ss_abs_f_ext s + atol c \<and> n_max_iter c > int (ss_n_iter s)")
    case False
    then show ?thesis using "1.prems" static_newton_stop[OF False, of ms du t] by simp
  next
    case True
    note step = static_newton_step[OF True, of ms du t]
    obtain s1 where it: "static_iteration c ms du t s = Inr s1"
      using "1.prems" step by (cases "static_iteration c ms du t s") auto
    have n1: "ss_n_iter s1 = ss_n_iter s + 1"
      using it by (rule static_iteration_n_iter)
    show ?thesis
    proof (cases "int (ss_n_iter s1) \<ge> n_max_iter c \<and> conv_abort c")
      case True
      then have "s' = s1" using "1.prems" step it by simp
      then show ?thesis using True n1 by simp
    next
      case False
      then have rec: "static_newton c ms du t s1 = SAbort s'"
        using "1.prems" step it by (auto split: if_splits)
      show ?thesis using "1.IH"[OF True it False rec] n1 by simp
    qed
  qed
qed










lemma norm_of_vector_single: "norm_of_vector [x] = \<bar>x\<bar>"
  by (simp add: norm_of_vector_def dot_def)



section \<open>The statics solver on a linear problem\<close>
















section \<open>The iteration loop and the time step loop of the dynamics solver\<close>

lemma newton_loop_stop:
  assumes "\<not> (n_res_abs s > rtol c * S + atol c)"
  shows "newton_loop c S t old s = Converged s"
  by (subst newton_loop.simps) (simp only: assms if_False)

lemma newton_loop_step:
  assumes "n_res_abs s > rtol c * S + atol c"
  shows "newton_loop c S t old s =
     (case newton_iteration c t old s of
        Inl e \<Rightarrow> Raised e
      | Inr s' \<Rightarrow>
          if int (n_iter s') > n_iter_max c
          then (if conv_abort c then Abort s' else Rollback s')
          else newton_loop c S t old s')"
  by (subst newton_loop.simps) (simp only: assms if_True)

lemma newton_iteration_written:
  "newton_iteration c t old s = Inr s' \<Longrightarrow> \<not> write_iter c \<Longrightarrow> n_written s' = n_written s"
  by (auto simp: newton_iteration_def Let_def split: sum.splits prod.splits)

lemma newton_iteration_res_abs:
  "newton_iteration c t old s = Inr s' \<Longrightarrow> n_res_abs s' = norm_of_vector (n_res s')"
  by (auto simp: newton_iteration_def Let_def split: sum.splits prod.splits)

lemma newton_loop_final:
  "final_state (newton_loop c S t old s) = Some s' \<Longrightarrow>
   n_iter s \<le> n_iter s'
   \<and> (\<not> write_iter c \<longrightarrow> n_written s' = n_written s)
   \<and> (n_res_abs s > rtol c * S + atol c \<longrightarrow> n_iter s < n_iter s')"
proof (induction c S t old s rule: newton_loop.induct)
  case (1 c S t old s)
  show ?case
  proof (cases "n_res_abs s > rtol c * S + atol c")
    case False
    then show ?thesis using "1.prems" newton_loop_stop[OF False, of t old] by simp
  next
    case True
    note step = newton_loop_step[OF True, of t old]
    obtain s1 where it: "newton_iteration c t old s = Inr s1"
      using "1.prems" step by (cases "newton_iteration c t old s") auto
    have n1: "n_iter s1 = n_iter s + 1"
      using it by (rule newton_iteration_n_iter)
    have w1: "\<not> write_iter c \<Longrightarrow> n_written s1 = n_written s"
      using it by (rule newton_iteration_written)
    show ?thesis
    proof (cases "int (n_iter s1) > n_iter_max c")
      case True
      then have "s' = s1" using "1.prems" step it by (auto split: if_splits)
      then show ?thesis using n1 w1 by simp
    next
      case False
      then have rec: "final_state (newton_loop c S t old s1) = Some s'"
        using "1.prems" step it by simp
      show ?thesis using "1.IH"[OF True it False rec] n1 w1 by auto
    qed
  qed
qed

lemma newton_loop_converged:
  "newton_loop c S t old s = Converged s' \<Longrightarrow> \<not> (n_res_abs s' > rtol c * S + atol c)"
proof (induction c S t old s rule: newton_loop.induct)
  case (1 c S t old s)
  show ?case
  proof (cases "n_res_abs s > rtol c * S + atol c")
    case False
    then show ?thesis using "1.prems" newton_loop_stop[OF False, of t old] by simp
  next
    case True
    note step = newton_loop_step[OF True, of t old]
    obtain s1 where it: "newton_iteration c t old s = Inr s1"
      using "1.prems" step by (cases "newton_iteration c t old s") auto
    have na: "\<not> int (n_iter s1) > n_iter_max c"
      using "1.prems" step it by (auto split: if_splits)
    then have rec: "newton_loop c S t old s1 = Converged s'"
      using "1.prems" step it by simp
    show ?thesis using "1.IH"[OF True it na rec] .
  qed
qed

lemma newton_loop_converged_iff:
  "newton_loop c S t old s = Converged s \<longleftrightarrow> \<not> (n_res_abs s > rtol c * S + atol c)"
proof
  assume a: "newton_loop c S t old s = Converged s"
  show "\<not> (n_res_abs s > rtol c * S + atol c)"
    using newton_loop_converged[OF a] .
next
  assume "\<not> (n_res_abs s > rtol c * S + atol c)"
  then show "newton_loop c S t old s = Converged s" by (rule newton_loop_stop)
qed

lemma predicted_written: "predicted c st = Inr s0 \<Longrightarrow> n_written s0 = s_written st"
  by (auto simp: predicted_def split: sum.splits prod.splits)

lemma predicted_res_abs: "predicted c st = Inr s0 \<Longrightarrow> n_res_abs s0 = norm_of_vector (n_res s0)"
  by (auto simp: predicted_def split: sum.splits prod.splits)

lemma saved_fields:
  "q_old (saved st) = s_q st" "dq_old (saved st) = s_dq st" "v_old (saved st) = s_v st"
  "ddq_old (saved st) = s_ddq st" "f_ext_old (saved st) = s_f_ext st" "t_old (saved st) = s_t st"
  by (simp_all add: saved_def)

lemma advance_outcome:
  "advance c st =
     (case predicted c st of
        Inl e \<Rightarrow> st\<lparr>s_status := Failed e\<rparr>
      | Inr s0 \<Rightarrow>
          (case newton_outcome c st of
             Raised e \<Rightarrow> st\<lparr>s_status := Failed e\<rparr>
           | Converged s \<Rightarrow>
               st\<lparr>s_t := s_t st + dt c, s_q := n_q s, s_dq := n_dq s, s_v := n_v s,
                  s_ddq := n_ddq s, s_f_ext := n_f_ext s,
                  s_abs_f_ext := max (s_abs_f_ext st) (norm_of_vector (n_f_ext s0)),
                  s_written := n_written s,
                  s_iteration_info := tracked c (s_t st + dt c) s (s_iteration_info st)\<rparr>
           | Abort s \<Rightarrow>
               st\<lparr>s_t := s_t st + dt c, s_q := n_q s, s_dq := n_dq s, s_v := n_v s,
                  s_ddq := n_ddq s, s_f_ext := n_f_ext s,
                  s_abs_f_ext := max (s_abs_f_ext st) (norm_of_vector (n_f_ext s0)),
                  s_written := n_written s, s_status := Aborted\<rparr>
           | Rollback s \<Rightarrow>
               st\<lparr>s_t := s_t st, s_q := s_q st, s_dq := s_dq st, s_v := s_v st,
                  s_ddq := n_ddq s, s_f_ext := s_f_ext st,
                  s_abs_f_ext := max (s_abs_f_ext st) (norm_of_vector (n_f_ext s0)),
                  s_written := n_written s,
                  s_iteration_info := tracked c (s_t st) s (s_iteration_info st)\<rparr>))"
  by (simp add: advance_def newton_outcome_def saved_fields Let_def
      split: sum.splits newton_result.splits)

lemma newton_outcome_written:
  assumes "\<not> write_iter c" and "final_state (newton_outcome c st) = Some s"
  shows "n_written s = s_written st"
proof -
  obtain s0 where p: "predicted c st = Inr s0"
    using assms(2) by (cases "predicted c st") (auto simp: newton_outcome_def)
  have "final_state (newton_loop c (max (s_abs_f_ext st) (norm_of_vector (n_f_ext s0)))
          (s_t st + dt c) (saved st) s0) = Some s"
    using assms(2) p by (simp add: newton_outcome_def)
  from newton_loop_final[OF this] assms(1) predicted_written[OF p]
  show ?thesis by simp
qed

lemma advance_written:
  assumes "\<not> write_iter c"
  shows "s_written (advance c st) = s_written st"
proof (cases "predicted c st")
  case (Inl e)
  then show ?thesis by (simp add: advance_outcome)
next
  case (Inr s0)
  show ?thesis
    using newton_outcome_written[OF assms, of st]
    by (cases "newton_outcome c st") (simp_all add: advance_outcome Inr)
qed

lemma advance_abs_f_ext: "s_abs_f_ext st \<le> s_abs_f_ext (advance c st)"
proof (cases "predicted c st")
  case (Inl e)
  then show ?thesis by (simp add: advance_outcome)
next
  case (Inr s0)
  show ?thesis
    by (cases "newton_outcome c st") (simp_all add: advance_outcome Inr)
qed

lemma write_output_fields:
  "s_t (write_output tr st) = s_t st" "s_q (write_output tr st) = s_q st"
  "s_abs_f_ext (write_output tr st) = s_abs_f_ext st"
  "s_written (write_output tr st) =
     (if s_t st + eps \<ge> tr ! s_time_index st then s_written st @ [(s_t st, s_q st)]
      else s_written st)"
  by (simp_all add: write_output_def Let_def)

lemma time_step_abs_f_ext: "s_abs_f_ext st \<le> s_abs_f_ext (time_step c tr st)"
  using advance_abs_f_ext[of "write_output tr st" c]
  by (simp add: time_step_def Let_def write_output_fields)

lemma run_abs_f_ext: "s_abs_f_ext st \<le> s_abs_f_ext (run c tr n st)"
proof (induction n arbitrary: st)
  case 0
  then show ?case by simp
next
  case (Suc n)
  show ?case
    using Suc[of "time_step c tr st"] time_step_abs_f_ext[of st c tr] by simp
qed

lemma time_step_written:
  assumes "\<not> write_iter c" and "s_time_index st < length tr"
  shows "s_written (time_step c tr st) =
     (if s_t st + eps \<ge> tr ! s_time_index st then s_written st @ [(s_t st, s_q st)]
      else s_written st)"
  using assms by (simp add: time_step_def Let_def advance_written write_output_fields)

lemma run_not_running: "s_status st \<noteq> Running \<Longrightarrow> run c tr n st = st"
  by (cases n) simp_all

lemma run_Suc_end:
  "run c tr (Suc n) st =
     (if s_status (run c tr n st) = Running then time_step c tr (run c tr n st)
      else run c tr n st)"
proof (induction n arbitrary: st)
  case 0
  then show ?case by simp
next
  case (Suc n)
  show ?case
  proof (cases "s_status st = Running")
    case True
    then show ?thesis using Suc[of "time_step c tr st"] by simp
  next
    case False
    then show ?thesis by simp
  qed
qed

section \<open>The convergence test of the dynamics solver\<close>

lemma advance_scale:
  assumes "predicted c st = Inr s0" and "final_state (newton_outcome c st) \<noteq> None"
  shows "s_abs_f_ext (advance c st) = max (s_abs_f_ext st) (norm_of_vector (n_f_ext s0))"
  using assms by (cases "newton_outcome c st") (simp_all add: advance_outcome)

lemma run_scale_lower: "atol c \<le> s_abs_f_ext (run c tr n (initial_state c))"
  using run_abs_f_ext[of "initial_state c" c tr n] by (simp add: initial_state_def)

text \<open>
  C2, amended: the iteration loop of a time step is entered, and entered again, exactly
  when the norm of the residual, computed by \<^verbatim>\<open>norm_of_vector\<close>, exceeds
  \<open>rtol S + atol\<close> (it is also left when the iteration count exceeds \<^verbatim>\<open>n_iter_max\<close>),
  and a loop that converged ends in a state that does not exceed it. The scale \<open>S\<close> is
  \<^verbatim>\<open>abs_f_ext\<close>: it starts as \<^verbatim>\<open>atol\<close>, and a time step makes it the maximum of its
  value and of the norm of the external force of the first evaluation of the step; it never
  decreases, so it is at least \<^verbatim>\<open>atol\<close> throughout, and never zero when \<^verbatim>\<open>atol\<close> is
  positive.
\<close>

theorem C2_newton_test_and_scale:
  "(newton_loop c S t old s = Converged s \<longleftrightarrow> \<not> n_res_abs s > rtol c * S + atol c)
   \<and> (newton_loop c S t old s = Converged s' \<longrightarrow> \<not> n_res_abs s' > rtol c * S + atol c)
   \<and> (predicted c st = Inr s0 \<longrightarrow>
        n_res_abs s0 = norm_of_vector (n_res s0)
        \<and> newton_outcome c st =
            newton_loop c (max (s_abs_f_ext st) (norm_of_vector (n_f_ext s0)))
              (s_t st + dt c) (saved st) s0)
   \<and> (newton_iteration c t old s = Inr s1 \<longrightarrow> n_res_abs s1 = norm_of_vector (n_res s1))
   \<and> (predicted c st = Inr s0 \<and> final_state (newton_outcome c st) \<noteq> None \<longrightarrow>
        s_abs_f_ext (advance c st) = max (s_abs_f_ext st) (norm_of_vector (n_f_ext s0)))
   \<and> s_abs_f_ext (initial_state c) = atol c
   \<and> s_abs_f_ext st \<le> s_abs_f_ext (time_step c tr st)
   \<and> atol c \<le> s_abs_f_ext (run c tr n (initial_state c))
   \<and> (0 < atol c \<longrightarrow> s_abs_f_ext (run c tr n (initial_state c)) \<noteq> 0)"
proof (intro conjI impI)
  show "newton_loop c S t old s = Converged s \<longleftrightarrow> \<not> n_res_abs s > rtol c * S + atol c"
    by (rule newton_loop_converged_iff)
  show "\<not> n_res_abs s' > rtol c * S + atol c" if "newton_loop c S t old s = Converged s'"
    using that by (rule newton_loop_converged)
  show "n_res_abs s0 = norm_of_vector (n_res s0)" if "predicted c st = Inr s0"
    using that by (rule predicted_res_abs)
  show "newton_outcome c st =
      newton_loop c (max (s_abs_f_ext st) (norm_of_vector (n_f_ext s0)))
        (s_t st + dt c) (saved st) s0" if "predicted c st = Inr s0"
    using that by (simp add: newton_outcome_def)
  show "n_res_abs s1 = norm_of_vector (n_res s1)" if "newton_iteration c t old s = Inr s1"
    using that by (rule newton_iteration_res_abs)
  show "s_abs_f_ext (advance c st) = max (s_abs_f_ext st) (norm_of_vector (n_f_ext s0))"
    if "predicted c st = Inr s0 \<and> final_state (newton_outcome c st) \<noteq> None"
    using that advance_scale by blast
  show "s_abs_f_ext (initial_state c) = atol c"
    by (simp add: initial_state_def)
  show "s_abs_f_ext st \<le> s_abs_f_ext (time_step c tr st)"
    by (rule time_step_abs_f_ext)
  show "atol c \<le> s_abs_f_ext (run c tr n (initial_state c))"
    by (rule run_scale_lower)
  show "s_abs_f_ext (run c tr n (initial_state c)) \<noteq> 0" if "0 < atol c"
    using that run_scale_lower[of c tr n] by simp
qed

lemma newton_loop_stop_le:
  "n_res_abs s \<le> rtol c * S + atol c \<Longrightarrow> newton_loop c S t old s = Converged s"
  by (rule newton_loop_stop) simp

text \<open>The example: the first pass of the solver at rest.\<close>

lemma resting_solver_fields:
  "rtol (resting_solver tol) = 1 / 10 ^ 9" "atol (resting_solver tol) = tol"
  "conv_abort (resting_solver tol)" "\<not> write_iter (resting_solver tol)"
  "\<not> track_niter (resting_solver tol)"
  "t0 (resting_solver tol) = 0" "t_end (resting_solver tol) = 2" "dt (resting_solver tol) = 1"
  "dt_output (resting_solver tol) = 1" "n_iter_max (resting_solver tol) = 30"
  "\<not> use_v (resting_solver tol)" "q0 (resting_solver tol) = [0]" "dq0 (resting_solver tol) = [0]"
  "predict (resting_solver tol) = ga_predict half_params 1"
  "newton_raphson (resting_solver tol) = ga_newton_raphson spring_mass half_params 1"
  "correct (resting_solver tol) = ga_correct half_params 1"
  by (simp_all add: resting_solver_def generalized_alpha_solver_def dynamics_with_def)

lemma resting_time_range: "time_range (resting_solver tol) = [0, 1]"
  by (simp add: time_range_def resting_solver_fields arange_def upt_rec)

lemma resting_predicted:
  "predicted (resting_solver tol)
     \<lparr>s_t = 0, s_q = [0], s_dq = [0], s_v = [], s_ddq = [0], s_f_ext = [0],
      s_abs_f_ext = tol, s_time_index = i, s_written = w, s_iteration_info = info,
      s_status = Running\<rparr>
   = Inr \<lparr>n_q = [0], n_dq = [0], n_v = [], n_ddq = [0], n_Jac = [[- 5 / 2]], n_res = [0],
          n_f_ext = [0], n_res_abs = 0, n_iter = 0, n_written = w\<rparr>"
  by (simp add: predicted_def resting_solver_fields ga_predict_def ga_newton_raphson_def
      half_params_def spring_mass_def mass_def Let_def vadd_def vsub_def vscale_def msub_def
      mscale_def matvec_def dot_def norm_of_vector_single)

lemma resting_first_step:
  assumes "0 \<le> tol"
  shows "time_step (resting_solver tol) (time_range (resting_solver tol))
           (initial_state (resting_solver tol))
         = \<lparr>s_t = 1, s_q = [0], s_dq = [0], s_v = [], s_ddq = [0], s_f_ext = [0],
            s_abs_f_ext = tol, s_time_index = 1, s_written = [(0, [0])],
            s_iteration_info = [], s_status = Running\<rparr>"
proof -
  have init: "initial_state (resting_solver tol) =
      \<lparr>s_t = 0, s_q = [0], s_dq = [0], s_v = [], s_ddq = [0], s_f_ext = [0],
       s_abs_f_ext = tol, s_time_index = 0, s_written = [], s_iteration_info = [],
       s_status = Running\<rparr>"
    by (simp add: initial_state_def resting_solver_fields zeros_def)
  have out: "write_output [0, 1]
      \<lparr>s_t = 0, s_q = [0], s_dq = [0], s_v = [], s_ddq = [0], s_f_ext = [0],
       s_abs_f_ext = tol, s_time_index = 0, s_written = [], s_iteration_info = [],
       s_status = Running\<rparr>
     = \<lparr>s_t = 0, s_q = [0], s_dq = [0], s_v = [], s_ddq = [0], s_f_ext = [0],
       s_abs_f_ext = tol, s_time_index = 1, s_written = [(0, [0])], s_iteration_info = [],
       s_status = Running\<rparr>"
    by (simp add: write_output_def eps_def Let_def)
  have mx: "max tol 0 = tol" using assms by simp
  show ?thesis
    unfolding init resting_time_range
    by (simp add: time_step_def out advance_def resting_predicted Let_def
        norm_of_vector_single newton_loop_stop_le assms resting_solver_fields tracked_def mx)
qed

text \<open>
  C2, as stated: the relative scale \<open>S\<close> is never zero, even for a step that starts from
  zero external force. With \<^verbatim>\<open>atol = 0\<close> and a system without load, \<open>S\<close> is zero before
  the first time step and after it.
\<close>

theorem C2_zero_atol_zero_scale_counterexample:
  "atol (resting_solver 0) = 0
   \<and> s_abs_f_ext (initial_state (resting_solver 0)) = 0
   \<and> s_status (time_step (resting_solver 0) (time_range (resting_solver 0))
        (initial_state (resting_solver 0))) = Running
   \<and> s_abs_f_ext (time_step (resting_solver 0) (time_range (resting_solver 0))
        (initial_state (resting_solver 0))) = 0"
proof -
  have "s_abs_f_ext (initial_state (resting_solver 0)) = 0"
    by (simp add: initial_state_def resting_solver_fields)
  then show ?thesis
    by (simp add: resting_first_step resting_solver_fields)
qed

theorem C2_newton_test_and_scale_witness:
  "0 < atol (resting_solver 1)
   \<and> s_abs_f_ext (run (resting_solver 1) (time_range (resting_solver 1)) 1
        (initial_state (resting_solver 1))) \<noteq> 0"
  using C2_newton_test_and_scale[where c = "resting_solver 1"
      and tr = "time_range (resting_solver 1)" and n = 1]
  by (simp add: resting_solver_fields)

section \<open>The rollback of a time step\<close>

text \<open>The example: the first pass of the released solver.\<close>

lemma released_solver_fields:
  "rtol released_solver = 1 / 10 ^ 9" "atol released_solver = 1 / 10 ^ 6"
  "\<not> conv_abort released_solver" "\<not> write_iter released_solver"
  "\<not> track_niter released_solver"
  "linsolver_solve released_solver = scalar_solve"
  "t0 released_solver = 0" "t_end released_solver = 2" "dt released_solver = 1"
  "dt_output released_solver = 1" "n_iter_max released_solver = 0"
  "\<not> use_v released_solver" "q0 released_solver = [1]" "dq0 released_solver = [0]"
  "predict released_solver = ga_predict half_params 1"
  "newton_raphson released_solver = ga_newton_raphson spring_mass half_params 1"
  "correct released_solver = ga_correct half_params 1"
  by (simp_all add: released_solver_def generalized_alpha_solver_def dynamics_with_def)

lemma released_time_range: "time_range released_solver = [0, 1]"
  by (simp add: time_range_def released_solver_fields arange_def upt_rec)

lemma released_newton_raphson:
  "ga_newton_raphson spring_mass half_params 1 [a] [b] [] [d] 1 [1] [0] [] [0] 0
     = Inr ([[- (5 / 2)]], [- (d / 2) - (a / 2 + 1 / 2)], [0])"
  by (simp add: ga_newton_raphson_def half_params_def spring_mass_def mass_def Let_def
      vadd_def vsub_def vscale_def msub_def mscale_def matvec_def dot_def)

lemma released_predicted:
  "predicted released_solver
     \<lparr>s_t = 0, s_q = [1], s_dq = [0], s_v = [], s_ddq = [0], s_f_ext = [0],
      s_abs_f_ext = S, s_time_index = i, s_written = w, s_iteration_info = info,
      s_status = Running\<rparr>
   = Inr \<lparr>n_q = [1], n_dq = [0], n_v = [], n_ddq = [0], n_Jac = [[- (5 / 2)]], n_res = [- 1],
          n_f_ext = [0], n_res_abs = 1, n_iter = 0, n_written = w\<rparr>"
proof -
  have p: "ga_predict half_params 1 [1] [0] [] [0] = Inr ([1], [0], [], [0])"
    by (simp add: ga_predict_def half_params_def vadd_def vscale_def)
  show ?thesis
    by (simp add: predicted_def released_solver_fields p released_newton_raphson
        norm_of_vector_single)
qed

lemma released_iteration:
  "newton_iteration released_solver 1
     \<lparr>q_old = [1], dq_old = [0], v_old = [], ddq_old = [0], f_ext_old = [0], t_old = 0\<rparr>
     \<lparr>n_q = [1], n_dq = [0], n_v = [], n_ddq = [0], n_Jac = [[- (5 / 2)]], n_res = [- 1],
      n_f_ext = [0], n_res_abs = 1, n_iter = 0, n_written = w\<rparr>
   = Inr \<lparr>n_q = [3 / 5], n_dq = [- (4 / 5)], n_v = [], n_ddq = [- (8 / 5)],
          n_Jac = [[- (5 / 2)]], n_res = [0], n_f_ext = [0], n_res_abs = 0, n_iter = 1,
          n_written = w\<rparr>"
proof -
  have d: "vneg (scalar_solve [[a]] [b]) = [- (b / a)]" for a b :: real
    by (simp add: scalar_solve_def vneg_def)
  have c: "ga_correct half_params 1 [a] [b] [] [d] [x]
             = Inr ([a + x], [b + 2 * x], [], [d + 4 * x])" for a b d x :: real
    by (simp add: ga_correct_def half_params_def vadd_def vscale_def)
  show ?thesis
    by (simp add: newton_iteration_def released_solver_fields d c released_newton_raphson
        norm_of_vector_single Let_def)
qed

lemma released_loop:
  assumes "S \<le> 1"
  shows "newton_loop released_solver S 1
     \<lparr>q_old = [1], dq_old = [0], v_old = [], ddq_old = [0], f_ext_old = [0], t_old = 0\<rparr>
     \<lparr>n_q = [1], n_dq = [0], n_v = [], n_ddq = [0], n_Jac = [[- (5 / 2)]], n_res = [- 1],
      n_f_ext = [0], n_res_abs = 1, n_iter = 0, n_written = w\<rparr>
   = Rollback \<lparr>n_q = [3 / 5], n_dq = [- (4 / 5)], n_v = [], n_ddq = [- (8 / 5)],
          n_Jac = [[- (5 / 2)]], n_res = [0], n_f_ext = [0], n_res_abs = 0, n_iter = 1,
          n_written = w\<rparr>"
proof -
  let ?s0 = "\<lparr>n_q = [1], n_dq = [0], n_v = [], n_ddq = [0], n_Jac = [[- (5 / 2)]],
      n_res = [- 1], n_f_ext = [0], n_res_abs = 1, n_iter = 0, n_written = w\<rparr>"
  have "S / 10 ^ 9 \<le> 1 / 10 ^ 9"
    using assms by (simp add: divide_right_mono)
  then have g: "n_res_abs ?s0 > rtol released_solver * S + atol released_solver"
    by (simp add: released_solver_fields)
  show ?thesis
    unfolding newton_loop_step[OF g] released_iteration
    by (simp add: released_solver_fields)
qed

lemma released_advance:
  assumes "0 \<le> S" and "S \<le> 1"
  shows "advance released_solver
      \<lparr>s_t = 0, s_q = [1], s_dq = [0], s_v = [], s_ddq = [0], s_f_ext = [0],
       s_abs_f_ext = S, s_time_index = i, s_written = w,
       s_iteration_info = info, s_status = Running\<rparr>
     = \<lparr>s_t = 0, s_q = [1], s_dq = [0], s_v = [], s_ddq = [- (8 / 5)], s_f_ext = [0],
      s_abs_f_ext = S, s_time_index = i, s_written = w,
      s_iteration_info = info, s_status = Running\<rparr>"
proof -
  have mx: "max S 0 = S" using assms(1) by simp
  show ?thesis
    by (simp add: advance_def released_predicted Let_def norm_of_vector_single saved_def mx
        released_loop[OF assms(2)] released_solver_fields tracked_def)
qed

lemma released_output:
  "write_output [0, 1]
      \<lparr>s_t = 0, s_q = [1], s_dq = [0], s_v = [], s_ddq = [0], s_f_ext = [0],
       s_abs_f_ext = S, s_time_index = 0, s_written = [], s_iteration_info = [],
       s_status = Running\<rparr>
     = \<lparr>s_t = 0, s_q = [1], s_dq = [0], s_v = [], s_ddq = [0], s_f_ext = [0],
       s_abs_f_ext = S, s_time_index = Suc 0, s_written = [(0, [1])],
       s_iteration_info = [], s_status = Running\<rparr>"
  by (simp add: write_output_def eps_def Let_def)

lemma released_step:
  assumes "0 \<le> S" and "S \<le> 1"
  shows "time_step released_solver [0, 1]
      \<lparr>s_t = 0, s_q = [1], s_dq = [0], s_v = [], s_ddq = [0], s_f_ext = [0],
       s_abs_f_ext = S, s_time_index = 0, s_written = [], s_iteration_info = [],
       s_status = Running\<rparr>
     = \<lparr>s_t = 0, s_q = [1], s_dq = [0], s_v = [], s_ddq = [- (8 / 5)], s_f_ext = [0],
      s_abs_f_ext = S, s_time_index = Suc 0, s_written = [(0, [1])],
      s_iteration_info = [], s_status = Running\<rparr>"
  by (simp add: time_step_def released_output Let_def released_advance[OF assms])

lemma rollback_state:
  assumes "newton_outcome c st = Rollback s"
  shows "s_t (advance c st) = s_t st" and "s_q (advance c st) = s_q st"
    and "s_dq (advance c st) = s_dq st" and "s_v (advance c st) = s_v st"
    and "s_f_ext (advance c st) = s_f_ext st" and "s_ddq (advance c st) = n_ddq s"
    and "s_status (advance c st) = s_status st"
  using assms
  by (cases "predicted c st"; simp add: advance_outcome newton_outcome_def)+

text \<open>
  C3: with \<^verbatim>\<open>conv_abort\<close> false, a time step whose iteration count exceeds
  \<^verbatim>\<open>n_iter_max\<close> is rolled back to the time, the displacement, the velocity, the
  auxiliary velocity, the acceleration and the external force from before the prediction,
  and retried with the same \<^verbatim>\<open>dt\<close>. The code restores all of them but the acceleration:
  \<^verbatim>\<open>ddq\<close> keeps the value of the last iterate (\<open>rollback_state\<close>). In the pass below,
  which starts with the acceleration \<open>[0]\<close>, the step is rolled back and the next pass
  starts with the acceleration \<open>[- 8 / 5]\<close>.
\<close>

theorem C3_rollback_keeps_acceleration:
  "initial_state released_solver =
     \<lparr>s_t = 0, s_q = [1], s_dq = [0], s_v = [], s_ddq = [0], s_f_ext = [0],
      s_abs_f_ext = 1 / 10 ^ 6, s_time_index = 0, s_written = [], s_iteration_info = [],
      s_status = Running\<rparr>
   \<and> time_step released_solver (time_range released_solver) (initial_state released_solver) =
     \<lparr>s_t = 0, s_q = [1], s_dq = [0], s_v = [], s_ddq = [- 8 / 5], s_f_ext = [0],
      s_abs_f_ext = 1 / 10 ^ 6, s_time_index = 1, s_written = [(0, [1])],
      s_iteration_info = [], s_status = Running\<rparr>"
proof -
  have init: "initial_state released_solver =
     \<lparr>s_t = 0, s_q = [1], s_dq = [0], s_v = [], s_ddq = [0], s_f_ext = [0],
      s_abs_f_ext = 1 / 10 ^ 6, s_time_index = 0, s_written = [], s_iteration_info = [],
      s_status = Running\<rparr>"
    by (simp add: initial_state_def released_solver_fields zeros_def)
  have "time_step released_solver [0, 1]
      \<lparr>s_t = 0, s_q = [1], s_dq = [0], s_v = [], s_ddq = [0], s_f_ext = [0],
       s_abs_f_ext = 1 / 10 ^ 6, s_time_index = 0, s_written = [], s_iteration_info = [],
       s_status = Running\<rparr>
     = \<lparr>s_t = 0, s_q = [1], s_dq = [0], s_v = [], s_ddq = [- (8 / 5)], s_f_ext = [0],
      s_abs_f_ext = 1 / 10 ^ 6, s_time_index = Suc 0, s_written = [(0, [1])],
      s_iteration_info = [], s_status = Running\<rparr>"
    by (rule released_step) simp_all
  then show ?thesis
    unfolding init released_time_range by simp
qed

section \<open>The output of the dynamics solver\<close>

lemma advance_time:
  assumes "0 \<le> dt c"
  shows "s_t st \<le> s_t (advance c st)"
proof (cases "predicted c st")
  case (Inl e)
  then show ?thesis by (simp add: advance_outcome)
next
  case (Inr s0)
  show ?thesis
    using assms by (cases "newton_outcome c st") (simp_all add: advance_outcome Inr)
qed

lemma advance_running:
  assumes "s_status (advance c st) = Running"
  shows "(\<exists>s. newton_outcome c st = Converged s
            \<and> s_t (advance c st) = s_t st + dt c \<and> s_q (advance c st) = n_q s)
         \<or> (s_t (advance c st) = s_t st \<and> s_q (advance c st) = s_q st)"
proof (cases "predicted c st")
  case (Inl e)
  then show ?thesis using assms by (simp add: advance_outcome)
next
  case (Inr s0)
  show ?thesis
    using assms by (cases "newton_outcome c st") (simp_all add: advance_outcome Inr)
qed

lemma write_output_status:
  "s_status st = Running \<Longrightarrow> s_status (write_output tr st) = Running
     \<or> s_status (write_output tr st) = Finished"
  by (simp add: write_output_def Let_def)

lemma times_ordered_write_output:
  "times_ordered st \<Longrightarrow> times_ordered (write_output tr st)"
  by (auto simp: times_ordered_def write_output_def Let_def sorted_append list_all_iff)

lemma times_ordered_advance:
  assumes "times_ordered st" and "0 \<le> dt c" and "\<not> write_iter c"
  shows "times_ordered (advance c st)"
  using assms advance_time[OF assms(2), of st] advance_written[OF assms(3), of st]
  by (fastforce simp: times_ordered_def list_all_iff)

lemma times_ordered_time_step:
  assumes "times_ordered st" and "0 \<le> dt c" and "\<not> write_iter c"
  shows "times_ordered (time_step c tr st)"
proof (cases "s_time_index st < length tr")
  case False
  then show ?thesis using assms(1) by (simp add: time_step_def times_ordered_def)
next
  case True
  show ?thesis
    using times_ordered_write_output[OF assms(1), of tr]
      times_ordered_advance[OF _ assms(2,3), of "write_output tr st"] True
    by (simp add: time_step_def Let_def)
qed

lemma times_ordered_run:
  assumes "times_ordered st" and "0 \<le> dt c" and "\<not> write_iter c"
  shows "times_ordered (run c tr n st)"
  using assms(1)
proof (induction n arbitrary: st)
  case 0
  then show ?case by simp
next
  case (Suc n)
  show ?case
    using Suc.IH[OF times_ordered_time_step[OF Suc.prems assms(2,3)]] Suc.prems by simp
qed

lemma accepted_before_mono: "accepted_before c tr n x \<Longrightarrow> accepted_before c tr (Suc n) x"
  by (auto simp: accepted_before_def list_ex_iff intro: less_SucI)

lemma time_step_accepted:
  assumes w: "\<not> write_iter c"
    and run: "s_status st = Running"
    and cur: "accepted_before c tr n (s_t st, s_q st)"
    and wr: "list_all (accepted_before c tr n) (s_written st)"
    and acc: "\<And>x. accepted_at c tr st = Some x \<Longrightarrow> accepted_before c tr (Suc n) x"
  shows "(s_status (time_step c tr st) = Running \<longrightarrow>
            accepted_before c tr (Suc n) (s_t (time_step c tr st), s_q (time_step c tr st)))
         \<and> list_all (accepted_before c tr (Suc n)) (s_written (time_step c tr st))"
proof (cases "s_time_index st < length tr")
  case False
  then show ?thesis
    using wr by (auto simp: time_step_def list_all_iff intro: accepted_before_mono)
next
  case True
  let ?st1 = "write_output tr st"
  have w1: "list_all (accepted_before c tr (Suc n)) (s_written ?st1)"
    using wr cur by (auto simp: write_output_fields list_all_iff intro: accepted_before_mono)
  show ?thesis
  proof (cases "s_status ?st1 = Running")
    case False
    then show ?thesis using True w1 by (simp add: time_step_def Let_def)
  next
    case r1: True
    have ts: "time_step c tr st = advance c ?st1"
      using True r1 by (simp add: time_step_def Let_def)
    have wa: "s_written (advance c ?st1) = s_written ?st1"
      using w by (rule advance_written)
    have "accepted_before c tr (Suc n) (s_t (advance c ?st1), s_q (advance c ?st1))"
      if ra: "s_status (advance c ?st1) = Running"
    proof -
      from advance_running[OF ra]
      consider s where "newton_outcome c ?st1 = Converged s"
          "s_t (advance c ?st1) = s_t ?st1 + dt c" "s_q (advance c ?st1) = n_q s"
        | "s_t (advance c ?st1) = s_t ?st1" "s_q (advance c ?st1) = s_q ?st1"
        by blast
      then show ?thesis
      proof cases
        case 1
        have "accepted_at c tr st = Some (s_t st + dt c, n_q s)"
          using run True r1 1(1) by (simp add: accepted_at_def)
        then show ?thesis using acc 1(2,3) by (simp add: write_output_fields)
      next
        case 2
        then show ?thesis using cur by (simp add: write_output_fields accepted_before_mono)
      qed
    qed
    then show ?thesis using ts wa w1 by simp
  qed
qed

lemma run_accepted:
  assumes "\<not> write_iter c"
  shows "(s_status (run c tr n (initial_state c)) = Running \<longrightarrow>
            accepted_before c tr n (s_t (run c tr n (initial_state c)),
                                    s_q (run c tr n (initial_state c))))
         \<and> list_all (accepted_before c tr n) (s_written (run c tr n (initial_state c)))"
proof (induction n)
  case 0
  then show ?case by (simp add: initial_state_def accepted_before_def)
next
  case (Suc n)
  let ?st = "run c tr n (initial_state c)"
  show ?case
  proof (cases "s_status ?st = Running")
    case False
    then show ?thesis
      using Suc by (auto simp: run_Suc_end list_all_iff simp del: run.simps
          intro: accepted_before_mono)
  next
    case True
    have acc: "accepted_before c tr (Suc n) x" if "accepted_at c tr ?st = Some x" for x
      using that by (auto simp: accepted_before_def list_ex_iff)
    show ?thesis
      using time_step_accepted[OF assms True _ _ acc] Suc True
      by (simp add: run_Suc_end del: run.simps)
  qed
qed

text \<open>
  C6, amended: in a solve with \<^verbatim>\<open>write_iter\<close> false, a pass of the time step loop calls
  \<^verbatim>\<open>write_timestep\<close> exactly when the current time \<open>t\<close> satisfies
  \<open>t + 10\<^sup>-\<^sup>1\<^sup>3 \<ge>\<close> the next point of the output grid, and then with the current time and
  displacement; for a step size \<^verbatim>\<open>dt\<close> that is not negative, the times written are in
  non-decreasing order; and every time and displacement written is the initial one or one
  with which the iteration loop of an earlier pass converged, so that the iterate of a
  step that was rolled back is never written. The statement holds for every output grid.
\<close>

theorem C6_output_times_and_states:
  assumes "\<not> write_iter c"
  shows "(s_time_index st < length tr \<longrightarrow>
            s_written (time_step c tr st) =
              (if s_t st + eps \<ge> tr ! s_time_index st
               then s_written st @ [(s_t st, s_q st)] else s_written st))
     \<and> (0 \<le> dt c \<longrightarrow> sorted (map fst (s_written (run c tr n (initial_state c)))))
     \<and> list_all (accepted_before c tr n) (s_written (run c tr n (initial_state c)))"
proof (intro conjI impI)
  show "s_written (time_step c tr st) =
      (if s_t st + eps \<ge> tr ! s_time_index st
       then s_written st @ [(s_t st, s_q st)] else s_written st)"
    if "s_time_index st < length tr"
    using assms that by (rule time_step_written)
  show "sorted (map fst (s_written (run c tr n (initial_state c))))" if "0 \<le> dt c"
  proof -
    have "times_ordered (initial_state c)"
      by (simp add: times_ordered_def initial_state_def)
    from times_ordered_run[OF this that assms, of tr n]
    show ?thesis by (simp add: times_ordered_def)
  qed
  show "list_all (accepted_before c tr n) (s_written (run c tr n (initial_state c)))"
    using run_accepted[OF assms, of tr n] by simp
qed

text \<open>The example: the two passes of the backward solver.\<close>

lemma backward_solver_fields:
  "rtol backward_solver = 1 / 10 ^ 9" "atol backward_solver = 1 / 10 ^ 6"
  "conv_abort backward_solver" "\<not> write_iter backward_solver"
  "\<not> track_niter backward_solver"
  "t0 backward_solver = 0" "t_end backward_solver = - 2" "dt backward_solver = - 1"
  "dt_output backward_solver = - 1" "n_iter_max backward_solver = 30"
  "\<not> use_v backward_solver" "q0 backward_solver = [0]" "dq0 backward_solver = [0]"
  "predict backward_solver = ga_predict half_params (- 1)"
  "newton_raphson backward_solver = ga_newton_raphson spring_mass half_params (- 1)"
  "correct backward_solver = ga_correct half_params (- 1)"
  by (simp_all add: backward_solver_def generalized_alpha_solver_def dynamics_with_def)

lemma backward_time_range: "time_range backward_solver = [0, - 1]"
  by (simp add: time_range_def backward_solver_fields arange_def upt_rec)

lemma backward_predicted:
  "predicted backward_solver
     \<lparr>s_t = 0, s_q = [0], s_dq = [0], s_v = [], s_ddq = [0], s_f_ext = [0],
      s_abs_f_ext = S, s_time_index = i, s_written = w, s_iteration_info = info,
      s_status = Running\<rparr>
   = Inr \<lparr>n_q = [0], n_dq = [0], n_v = [], n_ddq = [0], n_Jac = [[- (5 / 2)]], n_res = [0],
          n_f_ext = [0], n_res_abs = 0, n_iter = 0, n_written = w\<rparr>"
  by (simp add: predicted_def backward_solver_fields ga_predict_def ga_newton_raphson_def
      half_params_def spring_mass_def mass_def Let_def vadd_def vsub_def vscale_def msub_def
      mscale_def matvec_def dot_def norm_of_vector_single)

lemma backward_first_step:
  "time_step backward_solver [0, - 1]
      \<lparr>s_t = 0, s_q = [0], s_dq = [0], s_v = [], s_ddq = [0], s_f_ext = [0],
       s_abs_f_ext = 1 / 10 ^ 6, s_time_index = 0, s_written = [], s_iteration_info = [],
       s_status = Running\<rparr>
   = \<lparr>s_t = - 1, s_q = [0], s_dq = [0], s_v = [], s_ddq = [0], s_f_ext = [0],
      s_abs_f_ext = 1 / 10 ^ 6, s_time_index = Suc 0, s_written = [(0, [0])],
      s_iteration_info = [], s_status = Running\<rparr>"
proof -
  have out: "write_output [0, - 1]
      \<lparr>s_t = 0, s_q = [0], s_dq = [0], s_v = [], s_ddq = [0], s_f_ext = [0],
       s_abs_f_ext = S, s_time_index = 0, s_written = [], s_iteration_info = [],
       s_status = Running\<rparr>
     = \<lparr>s_t = 0, s_q = [0], s_dq = [0], s_v = [], s_ddq = [0], s_f_ext = [0],
       s_abs_f_ext = S, s_time_index = Suc 0, s_written = [(0, [0])], s_iteration_info = [],
       s_status = Running\<rparr>" for S
    by (simp add: write_output_def eps_def Let_def)
  show ?thesis
    by (simp add: time_step_def out advance_def backward_predicted Let_def
        norm_of_vector_single newton_loop_stop_le backward_solver_fields tracked_def)
qed

lemma backward_second_step:
  "time_step backward_solver [0, - 1]
      \<lparr>s_t = - 1, s_q = [0], s_dq = [0], s_v = [], s_ddq = [0], s_f_ext = [0],
       s_abs_f_ext = S, s_time_index = Suc 0, s_written = [(0, [0])],
       s_iteration_info = [], s_status = Running\<rparr>
   = \<lparr>s_t = - 1, s_q = [0], s_dq = [0], s_v = [], s_ddq = [0], s_f_ext = [0],
      s_abs_f_ext = S, s_time_index = Suc (Suc 0), s_written = [(0, [0]), (- 1, [0])],
      s_iteration_info = [], s_status = Finished\<rparr>"
  by (simp add: time_step_def write_output_def eps_def Let_def)

lemma backward_run:
  "s_written (run backward_solver (time_range backward_solver) 2 (initial_state backward_solver))
     = [(0, [0]), (- 1, [0])]"
proof -
  have init: "initial_state backward_solver =
      \<lparr>s_t = 0, s_q = [0], s_dq = [0], s_v = [], s_ddq = [0], s_f_ext = [0],
       s_abs_f_ext = 1 / 10 ^ 6, s_time_index = 0, s_written = [], s_iteration_info = [],
       s_status = Running\<rparr>"
    by (simp add: initial_state_def backward_solver_fields zeros_def)
  have two: "run c tr 2 st =
      (if s_status st = Running
       then (if s_status (time_step c tr st) = Running
             then time_step c tr (time_step c tr st) else time_step c tr st)
       else st)" for c tr st
    by (simp add: numeral_2_eq_2)
  show ?thesis
    unfolding backward_time_range init two backward_first_step
    by (simp add: backward_second_step)
qed

text \<open>
  C6, as stated: the sequence of times passed to \<^verbatim>\<open>write_timestep\<close> is non-decreasing.
  With \<^verbatim>\<open>dt = dt_output = -1\<close>, \<^verbatim>\<open>t0 = 0\<close> and \<^verbatim>\<open>t_end = -2\<close> the output grid is
  \<open>[0, -1]\<close>, the solve steps backwards, and the times written are \<open>0\<close> and \<open>-1\<close>.
\<close>

theorem C6_backward_times_decrease_counterexample:
  "\<not> write_iter backward_solver
   \<and> s_written (run backward_solver (time_range backward_solver) 2
        (initial_state backward_solver)) = [(0, [0]), (- 1, [0])]
   \<and> \<not> sorted (map fst (s_written (run backward_solver (time_range backward_solver) 2
        (initial_state backward_solver))))"
  by (simp add: backward_run backward_solver_fields)

text \<open>The two passes of the solver at rest that steps forwards.\<close>

lemma resting_run:
  "s_written (run (resting_solver 1) (time_range (resting_solver 1)) 2
     (initial_state (resting_solver 1))) = [(0, [0]), (1, [0])]"
proof -
  have two: "run c tr 2 st =
      (if s_status st = Running
       then (if s_status (time_step c tr st) = Running
             then time_step c tr (time_step c tr st) else time_step c tr st)
       else st)" for c tr st
    by (simp add: numeral_2_eq_2)
  have r0: "s_status (initial_state (resting_solver 1)) = Running"
    by (simp add: initial_state_def)
  have first: "time_step (resting_solver 1) (time_range (resting_solver 1))
      (initial_state (resting_solver 1))
    = \<lparr>s_t = 1, s_q = [0], s_dq = [0], s_v = [], s_ddq = [0], s_f_ext = [0],
            s_abs_f_ext = 1, s_time_index = 1, s_written = [(0, [0])],
            s_iteration_info = [], s_status = Running\<rparr>"
    by (rule resting_first_step) simp
  show ?thesis
    unfolding two first
    by (simp add: r0 resting_time_range time_step_def write_output_def eps_def Let_def)
qed

theorem C6_output_times_and_states_witness:
  "\<not> write_iter (resting_solver 1) \<and> 0 \<le> dt (resting_solver 1)
   \<and> s_written (run (resting_solver 1) (time_range (resting_solver 1)) 2
        (initial_state (resting_solver 1))) = [(0, [0]), (1, [0])]
   \<and> sorted (map fst (s_written (run (resting_solver 1) (time_range (resting_solver 1)) 2
        (initial_state (resting_solver 1)))))
   \<and> list_all (accepted_before (resting_solver 1) (time_range (resting_solver 1)) 2)
        [(0, [0]), (1, [0])]"
proof -
  have w: "\<not> write_iter (resting_solver 1)"
    by (simp add: resting_solver_fields)
  show ?thesis
    using C6_output_times_and_states[OF w, where tr = "time_range (resting_solver 1)"
        and n = 2]
    by (simp add: resting_run resting_solver_fields)
qed

end
